theory Spec2Isabelle
  imports Main "HOL-Library.AList" "HOL-Library.Word"
begin

section \<open>Keyed collections\<close>

text \<open>
  The repository keeps its registries in discord.js \<open>Collection\<close>s, which are JavaScript
  \<open>Map\<close>s: iteration follows insertion order, \<open>set\<close> on a key that is present replaces
  the value in place and \<open>set\<close> on a new key appends. Plain objects used as dictionaries
  behave the same way for the string keys used here. Both are modelled as association
  lists with \<open>AList.update\<close> for \<open>set\<close>/property assignment, \<open>AList.delete\<close> for
  \<open>delete\<close> and \<open>map_of\<close> for \<open>get\<close>/property access.
\<close>

section \<open>Locale: content fragments and their merge\<close>

text \<open>
  \<open>PlainLocaleData\<close> is an object whose values are strings or nested objects of the same
  kind; \<open>ContentValue\<close> is the converted tree whose string leaves have become callable
  formatters (a leaf is represented by the template string its closure captured).
\<close>

type_synonym Language = string

datatype PlainValue = PString string | PObject "(string \<times> PlainValue) list"

type_synonym PlainLocaleData = "(string \<times> PlainValue) list"

datatype ContentNode = CFunc string | CObject "(string \<times> ContentNode) list"

type_synonym ContentValue = "(string \<times> ContentNode) list"

record Locale =
  content :: "(Language \<times> ContentValue) list"
  contents :: "(string \<times> (Language \<times> PlainLocaleData)) list"

text \<open>Nesting depth of a tree, used only to show that \<open>deepMerge\<close> terminates.\<close>

fun depthV :: "PlainValue \<Rightarrow> nat"
  and depthE :: "(string \<times> PlainValue) list \<Rightarrow> nat" where
  "depthV (PString s) = 0"
| "depthV (PObject es) = Suc (depthE es)"
| "depthE [] = 0"
| "depthE ((k, v) # es) = max (depthV v) (depthE es)"

fun depthL :: "PlainLocaleData list \<Rightarrow> nat" where
  "depthL [] = 0"
| "depthL (obj # rest) = max (depthE obj) (depthL rest)"

text \<open>
  \<open>deepMerge(...objects)\<close> builds its \<open>result\<close> by reading \<open>result[key]\<close> and assigning
  \<open>result[key] = ...\<close>. Both go through the prototype of \<open>result\<close> when the key is not an
  own property, and for the key \<open>__proto__\<close> they are the accessor of \<open>Object.prototype\<close>:
  reading gives the prototype, assigning an object replaces the prototype, assigning a
  string does nothing, and in no case is an own property stored. (An object that came
  from \<open>JSON.parse\<close> can hold \<open>__proto__\<close> as an own key, so \<open>Object.entries\<close> can deliver
  it.)

  A \<open>JsObject\<close> is therefore a pair: the own properties, and the own properties of the
  objects on the prototype chain, nearest first. \<open>Object.prototype\<close> ends every chain and
  is not listed: it has no enumerable property, and its properties other than
  \<open>__proto__\<close> are functions, which the test \<open>typeof result[key] === 'object'\<close> treats like
  an absent key.
\<close>

definition protoKey :: string where
  "protoKey = ''__proto__''"

type_synonym JsObject = "PlainLocaleData \<times> PlainLocaleData list"

definition emptyObject :: JsObject where
  "emptyObject = ([], [])"

fun inherited :: "PlainLocaleData list \<Rightarrow> string \<Rightarrow> PlainValue option" where
  "inherited [] key = None"
| "inherited (p # ps) key = (case map_of p key of None \<Rightarrow> inherited ps key | Some v \<Rightarrow> Some v)"

text \<open>\<open>result[key]\<close> as a read; the prototype object is seen through its own properties,
  which is all that \<open>Object.entries\<close> reads of it.\<close>

definition getProperty :: "JsObject \<Rightarrow> string \<Rightarrow> PlainValue option" where
  "getProperty obj key =
     (if key = protoKey then Some (PObject (case snd obj of [] \<Rightarrow> [] | p # ps \<Rightarrow> p))
      else (case map_of (fst obj) key of None \<Rightarrow> inherited (snd obj) key | Some v \<Rightarrow> Some v))"

text \<open>\<open>result[key] = value\<close> for a string \<open>value\<close>, and \<open>result[key] = merged\<close> for the
  object \<open>merged\<close> that a nested \<open>deepMerge\<close> returned. A stored object is kept by its own
  properties: the code reads it again only through \<open>Object.entries\<close>.\<close>

definition assignString :: "string \<Rightarrow> string \<Rightarrow> JsObject \<Rightarrow> JsObject" where
  "assignString key s result =
     (if key = protoKey then result
      else (AList.update key (PString s) (fst result), snd result))"

definition assignObject :: "string \<Rightarrow> JsObject \<Rightarrow> JsObject \<Rightarrow> JsObject" where
  "assignObject key merged result =
     (if key = protoKey then (fst result, fst merged # snd merged)
      else (AList.update key (PObject (fst merged)) (fst result), snd result))"

text \<open>
  \<open>mergeObjects\<close> is the outer loop over the argument objects and \<open>mergeEntries\<close> the inner
  loop over \<open>Object.entries(obj)\<close>, both threading the local \<open>result\<close>. A string value is
  assigned unconditionally. For an object value the code calls
  \<open>deepMerge(result[key], value)\<close> when \<open>result[key]\<close> is already an object and
  \<open>deepMerge({}, value)\<close> otherwise; \<open>existingObject\<close> is that first argument, as
  \<open>Object.entries\<close> sees it.
\<close>

definition existingObject :: "JsObject \<Rightarrow> string \<Rightarrow> PlainLocaleData" where
  "existingObject result key =
     (case getProperty result key of Some (PObject r) \<Rightarrow> r | _ \<Rightarrow> [])"

text \<open>Nesting depth of an object with its prototype chain; an object on the chain counts
  one level deeper, like an object stored under a key.\<close>

fun depthC :: "PlainLocaleData list \<Rightarrow> nat" where
  "depthC [] = 0"
| "depthC (p # ps) = max (Suc (depthE p)) (depthC ps)"

definition depthO :: "JsObject \<Rightarrow> nat" where
  "depthO obj = max (depthE (fst obj)) (depthC (snd obj))"

function mergeObjects :: "JsObject \<Rightarrow> PlainLocaleData list \<Rightarrow> JsObject"
  and mergeEntries :: "JsObject \<Rightarrow> (string \<times> PlainValue) list \<Rightarrow> JsObject" where
  "mergeObjects result [] = result"
| "mergeObjects result (obj # rest) = mergeObjects (mergeEntries result obj) rest"
| "mergeEntries result [] = result"
| "mergeEntries result ((key, PString s) # es) = mergeEntries (assignString key s result) es"
| "mergeEntries result ((key, PObject v) # es) =
     mergeEntries
       (assignObject key (mergeObjects emptyObject [existingObject result key, v]) result) es"
  by pat_completeness auto

lemma depthE_update: "depthE (AList.update k v es) \<le> max (depthV v) (depthE es)"
proof (induction es)
  case Nil
  show ?case by simp
next
  case (Cons a es)
  obtain k' v' where a: "a = (k', v')" by (cases a)
  show ?case using Cons by (simp add: a) linarith
qed

lemma depthE_map_of: "map_of es k = Some v \<Longrightarrow> depthV v \<le> depthE es"
  by (induction es) (auto split: if_splits simp: max_def)

lemma depthC_inherited: "inherited chain key = Some v \<Longrightarrow> depthV v < depthC chain"
proof (induction chain)
  case Nil
  then show ?case by simp
next
  case (Cons p ps)
  show ?case
  proof (cases "map_of p key")
    case None
    with Cons show ?thesis by (simp add: less_max_iff_disj)
  next
    case (Some w)
    with Cons.prems have "w = v" by simp
    with Some depthE_map_of [of p key v] show ?thesis by (simp add: less_max_iff_disj)
  qed
qed

lemma depthO_getProperty:
  "getProperty result key = Some (PObject r) \<Longrightarrow> depthE r = 0 \<or> depthE r < depthO result"
proof (cases "key = protoKey")
  case True
  assume g: "getProperty result key = Some (PObject r)"
  show ?thesis
  proof (cases "snd result")
    case Nil
    with g True show ?thesis by (simp add: getProperty_def)
  next
    case (Cons p ps)
    with g True have "r = p" by (simp add: getProperty_def)
    with Cons show ?thesis by (simp add: depthO_def less_max_iff_disj)
  qed
next
  case False
  assume g: "getProperty result key = Some (PObject r)"
  show ?thesis
  proof (cases "map_of (fst result) key")
    case None
    with g False have "inherited (snd result) key = Some (PObject r)"
      by (simp add: getProperty_def)
    from depthC_inherited [OF this] show ?thesis by (simp add: depthO_def less_max_iff_disj)
  next
    case (Some w)
    with g False have "map_of (fst result) key = Some (PObject r)"
      by (simp add: getProperty_def)
    from depthE_map_of [OF this] show ?thesis by (simp add: depthO_def less_max_iff_disj)
  qed
qed

lemma depthE_existingObject:
  "depthE (existingObject result key) = 0 \<or> depthE (existingObject result key) < depthO result"
proof (cases "getProperty result key")
  case None
  then show ?thesis by (simp add: existingObject_def)
next
  case (Some val)
  show ?thesis
  proof (cases val)
    case (PString s)
    with Some show ?thesis by (simp add: existingObject_def)
  next
    case (PObject r)
    with Some depthO_getProperty [of result key r] show ?thesis
      by (simp add: existingObject_def)
  qed
qed

lemma depthO_assignString: "depthO (assignString key s result) \<le> depthO result"
  using depthE_update [of key "PString s" "fst result"]
  by (simp add: assignString_def depthO_def, linarith?)

lemma depthO_assignObject:
  "depthO (assignObject key merged result) \<le> max (Suc (depthO merged)) (depthO result)"
  using depthE_update [of key "PObject (fst merged)" "fst result"]
  by (simp add: assignObject_def depthO_def, linarith?)

lemma depthO_emptyObject [simp]: "depthO emptyObject = 0"
  by (simp add: depthO_def emptyObject_def)

lemma depth_merge_dom:
  "mergeObjects_mergeEntries_dom (Inl (result, objs)) \<Longrightarrow>
     depthO (mergeObjects result objs) \<le> max (depthO result) (depthL objs)"
  "mergeObjects_mergeEntries_dom (Inr (result, es)) \<Longrightarrow>
     depthO (mergeEntries result es) \<le> max (depthO result) (depthE es)"
proof (induction result objs and result es rule: mergeObjects_mergeEntries.pinduct)
  case (1 result)
  then show ?case by (simp add: mergeObjects.psimps)
next
  case (2 result obj rest)
  then show ?case by (simp add: mergeObjects.psimps, linarith?)
next
  case (3 result)
  then show ?case by (simp add: mergeEntries.psimps)
next
  case (4 result key s es)
  have "depthO (assignString key s result) \<le> depthO result"
    by (rule depthO_assignString)
  with 4 show ?case by (simp add: mergeEntries.psimps, linarith?)
next
  case (5 result key v es)
  let ?m = "mergeObjects emptyObject [existingObject result key, v]"
  have m: "depthO ?m \<le> max (depthE (existingObject result key)) (depthE v)"
    using 5(2) by simp
  have "depthE (existingObject result key) = 0
      \<or> depthE (existingObject result key) < depthO result"
    by (rule depthE_existingObject)
  hence "Suc (depthO ?m) \<le> max (depthO result) (Suc (depthE v))"
    using m by auto
  hence "depthO (assignObject key ?m result) \<le> max (depthO result) (Suc (depthE v))"
    using depthO_assignObject [of key ?m result] by simp
  with 5(3) show ?case using 5(1) by (simp add: mergeEntries.psimps, linarith?)
qed

termination mergeObjects
proof (relation "inv_image (less_than <*lex*> less_than <*lex*> less_than)
    (\<lambda>x. case x of
       Inl (result, objs) \<Rightarrow> (max (depthO result) (depthL objs), Suc (length objs), 0)
     | Inr (result, es) \<Rightarrow> (max (depthO result) (depthE es), 0, length es))", goal_cases)
  case 1
  show ?case by (intro wf_inv_image wf_lex_prod wf_less_than)
next
  case (2 result obj rest)
  then show ?case by (auto simp: max_def)
next
  case (3 result obj rest)
  then show ?case
    using depth_merge_dom(2) [of result obj] by (auto simp: max_def split: if_splits)
next
  case (4 result key s es)
  then show ?case
    using depthO_assignString [of key s result] by (auto simp: max_def)
next
  case (5 result key v es)
  show ?case
    using depthE_existingObject [of result key] by (auto simp: max_def)
next
  case (6 result key v es)
  let ?m = "mergeObjects emptyObject [existingObject result key, v]"
  have m: "depthO ?m \<le> max (depthE (existingObject result key)) (depthE v)"
    using depth_merge_dom(1) [OF 6] by simp
  have "depthE (existingObject result key) = 0
      \<or> depthE (existingObject result key) < depthO result"
    by (rule depthE_existingObject)
  hence "Suc (depthO ?m) \<le> max (depthO result) (Suc (depthE v))"
    using m by auto
  hence "depthO (assignObject key ?m result) \<le> max (depthO result) (Suc (depthE v))"
    using depthO_assignObject [of key ?m result] by simp
  then show ?case by (auto simp: max_def split: if_splits)
qed

text \<open>The object that \<open>deepMerge\<close> returns is read by its callers through \<open>Object.entries\<close>
  only, that is, by its own properties.\<close>

definition deepMerge :: "PlainLocaleData list \<Rightarrow> PlainLocaleData" where
  "deepMerge objects = fst (mergeObjects emptyObject objects)"











text \<open>A fragment whose objects hold each key once, at every level, and never the key
  \<open>__proto__\<close>.\<close>

fun plainKeysV :: "PlainValue \<Rightarrow> bool"
  and plainKeys :: "(string \<times> PlainValue) list \<Rightarrow> bool" where
  "plainKeysV (PString s) = True"
| "plainKeysV (PObject es) = plainKeys es"
| "plainKeys [] = True"
| "plainKeys ((k, v) # es) =
     (k \<noteq> protoKey \<and> k \<notin> fst ` set es \<and> plainKeysV v \<and> plainKeys es)"

section \<open>ResultEventEmitter\<close>

text \<open>
  Values that listeners and handlers exchange. \<open>PromiseResolved v\<close> is a promise that
  fulfils with \<open>v\<close>, \<open>PromiseRejected e\<close> one that rejects with \<open>e\<close>; promises that never
  settle are outside the model. A call either returns a value or throws one.
\<close>

datatype jsvalue =
    Undefined
  | Str string
  | Num int
  | Obj "(string \<times> jsvalue) list"
  | PromiseResolved jsvalue
  | PromiseRejected jsvalue

datatype outcome = Returns jsvalue | Throws jsvalue

fun isPromise :: "jsvalue \<Rightarrow> bool" where
  "isPromise (PromiseResolved v) = True"
| "isPromise (PromiseRejected e) = True"
| "isPromise v = False"

text \<open>\<open>await Promise.resolve(x)\<close>: a settled promise gives its value or throws its reason,
  any other value is returned as it is.\<close>

fun await :: "jsvalue \<Rightarrow> outcome" where
  "await (PromiseResolved v) = await v"
| "await (PromiseRejected e) = Throws e"
| "await v = Returns v"

text \<open>
  A listener is a JavaScript function. \<open>call\<close> is what an invocation with the emitted
  arguments returns or throws. The function can also reach the emitter it is registered
  on: a listener of a pack may emit on that pack, or clear its results, while it is being
  called. Of what it does there, the emitter's own code reads back the field
  \<open>lastResults\<close>: \<open>leaves args r\<close> is the content of that field when the call ends, if it
  held \<open>r\<close> when the call began. \<open>plainListener\<close> is a listener that leaves the emitter
  alone.
\<close>

record EventListener =
  call :: "jsvalue list \<Rightarrow> outcome"
  leaves :: "jsvalue list \<Rightarrow> jsvalue list \<Rightarrow> jsvalue list"

definition plainListener :: "(jsvalue list \<Rightarrow> outcome) \<Rightarrow> EventListener" where
  "plainListener f = \<lparr>call = f, leaves = (\<lambda>args r. r)\<rparr>"

text \<open>
  Entries are JavaScript objects held in a \<open>Set\<close>, so two entries are the same entry only
  if they are the same object: \<open>ref\<close> is that identity, drawn from the emitter's
  allocation counter \<open>nextRef\<close>. The listener sets of the \<open>Map\<close> keep insertion order.
  (\<open>maxListeners\<close> only triggers a console warning and is left out.)
\<close>

record EventListenerEntry =
  ref :: nat
  listener :: EventListener
  once :: bool

record ResultEventEmitter =
  eventListeners :: "(string \<times> EventListenerEntry list) list"
  lastResults :: "jsvalue list"
  nextRef :: nat

definition newEmitter :: ResultEventEmitter where
  "newEmitter = \<lparr>eventListeners = [], lastResults = [], nextRef = 0\<rparr>"

definition getListenerEntries :: "string \<Rightarrow> ResultEventEmitter \<Rightarrow> EventListenerEntry list" where
  "getListenerEntries event em =
     (case map_of (eventListeners em) event of None \<Rightarrow> [] | Some listeners \<Rightarrow> listeners)"

definition addListenerInternal ::
  "string \<Rightarrow> EventListener \<Rightarrow> bool \<Rightarrow> ResultEventEmitter \<Rightarrow> ResultEventEmitter" where
  "addListenerInternal event l isOnce em =
     (let registry = (if map_of (eventListeners em) event = None
                      then AList.update event [] (eventListeners em) else eventListeners em);
          listeners = (case map_of registry event of None \<Rightarrow> [] | Some ls \<Rightarrow> ls)
      in em\<lparr>eventListeners :=
               AList.update event
                 (listeners @ [\<lparr>ref = nextRef em, listener = l, once = isOnce\<rparr>]) registry,
             nextRef := Suc (nextRef em)\<rparr>)"

definition on ::
  "string \<Rightarrow> EventListener \<Rightarrow> ResultEventEmitter \<Rightarrow> ResultEventEmitter" where
  "on event l em = addListenerInternal event l False em"

definition once' ::
  "string \<Rightarrow> EventListener \<Rightarrow> ResultEventEmitter \<Rightarrow> ResultEventEmitter" where
  "once' event l em = addListenerInternal event l True em"

text \<open>\<open>listeners.delete(entry)\<close> removes the entry object itself.\<close>

definition setDelete ::
  "EventListenerEntry \<Rightarrow> EventListenerEntry list \<Rightarrow> EventListenerEntry list" where
  "setDelete entry listeners = filter (\<lambda>x. ref x \<noteq> ref entry) listeners"

definition removeOnceListeners ::
  "string \<Rightarrow> EventListenerEntry list \<Rightarrow> ResultEventEmitter \<Rightarrow> ResultEventEmitter" where
  "removeOnceListeners event toRemove em =
     (if length toRemove = 0 then em
      else (case map_of (eventListeners em) event of
              None \<Rightarrow> em
            | Some listeners \<Rightarrow>
                (let listeners' = fold setDelete toRemove listeners
                 in if length listeners' = 0
                    then em\<lparr>eventListeners := AList.delete event (eventListeners em)\<rparr>
                    else em\<lparr>eventListeners :=
                              AList.update event listeners' (eventListeners em)\<rparr>)))"

text \<open>
  The variables of one emission: the collected results, the entries whose listener has
  been called (in call order; this is the observation the claims about "invoking" refer
  to) and the local array \<open>listenersToRemove\<close>. In \<open>emitAsync\<close> and \<open>emitParallel\<close> the
  results are collected in a local array; in \<open>emit\<close> they are collected in the field
  \<open>this.lastResults\<close> itself.
\<close>

record Emission =
  results :: "jsvalue list"
  invoked :: "EventListenerEntry list"
  listenersToRemove :: "EventListenerEntry list"

definition noEmission :: Emission where
  "noEmission = \<lparr>results = [], invoked = [], listenersToRemove = []\<rparr>"

definition called :: "EventListenerEntry \<Rightarrow> Emission \<Rightarrow> Emission" where
  "called entry acc = acc\<lparr>invoked := invoked acc @ [entry]\<rparr>"

definition pushResult :: "jsvalue \<Rightarrow> Emission \<Rightarrow> Emission" where
  "pushResult v acc = acc\<lparr>results := results acc @ [v]\<rparr>"

definition pushIfOnce :: "EventListenerEntry \<Rightarrow> Emission \<Rightarrow> Emission" where
  "pushIfOnce entry acc =
     (if once entry then acc\<lparr>listenersToRemove := listenersToRemove acc @ [entry]\<rparr> else acc)"

text \<open>What a listener call does to the results collected so far, where these are held
  in \<open>this.lastResults\<close>.\<close>

definition touched :: "EventListenerEntry \<Rightarrow> jsvalue list \<Rightarrow> Emission \<Rightarrow> Emission" where
  "touched entry args acc = acc\<lparr>results := leaves (listener entry) args (results acc)\<rparr>"

text \<open>
  \<open>emit\<close>: \<open>this.lastResults\<close> is reset, every listener of the snapshot is called and
  its result, or the error it threw, is pushed into \<open>this.lastResults\<close> as the field is
  after the call; the return value is a copy of the field.
\<close>

fun emitLoop :: "jsvalue list \<Rightarrow> EventListenerEntry list \<Rightarrow> Emission \<Rightarrow> Emission" where
  "emitLoop args [] acc = acc"
| "emitLoop args (entry # rest) acc =
     (case call (listener entry) args of
        Returns result \<Rightarrow>
          emitLoop args rest
            (pushIfOnce entry (pushResult result (touched entry args (called entry acc))))
      | Throws error \<Rightarrow>
          emitLoop args rest
            (pushIfOnce entry (pushResult error (touched entry args (called entry acc)))))"

definition emit ::
  "string \<Rightarrow> jsvalue list \<Rightarrow> ResultEventEmitter \<Rightarrow> Emission \<times> ResultEventEmitter" where
  "emit event args em =
     (let run = emitLoop args (getListenerEntries event em) noEmission
      in (run, removeOnceListeners event (listenersToRemove run)
                 (em\<lparr>lastResults := results run\<rparr>)))"

text \<open>
  What a listener leaves in \<open>this.lastResults\<close> that calls \<open>emit(event, ...args')\<close> on the
  emitter it is registered on: the results of that nested emission. \<open>em\<close> holds the
  listeners the emitter has for \<open>event\<close> at that moment.
\<close>

definition reentrant ::
  "string \<Rightarrow> jsvalue list \<Rightarrow> ResultEventEmitter \<Rightarrow> jsvalue list \<Rightarrow> jsvalue list \<Rightarrow> jsvalue list" where
  "reentrant event args' em =
     (\<lambda>args r. lastResults (snd (emit event args' (em\<lparr>lastResults := r\<rparr>))))"

text \<open>What \<open>await Promise.resolve(entry.listener(...args))\<close> inside \<open>try\<close> gives.\<close>

definition awaitListener :: "EventListenerEntry \<Rightarrow> jsvalue list \<Rightarrow> outcome" where
  "awaitListener entry args =
     (case call (listener entry) args of Throws error \<Rightarrow> Throws error | Returns v \<Rightarrow> await v)"

text \<open>
  The other modes collect into local variables and do not read \<open>this.lastResults\<close> while
  they run. What the listeners they called have left in the field is \<open>afterCalls\<close>;
  \<open>emitAsync\<close> and \<open>emitParallel\<close> overwrite it with their results when they finish.
\<close>

definition afterCalls ::
  "jsvalue list \<Rightarrow> EventListenerEntry list \<Rightarrow> jsvalue list \<Rightarrow> jsvalue list" where
  "afterCalls args entries r = fold (\<lambda>entry r. leaves (listener entry) args r) entries r"

text \<open>
  \<open>emitAsync\<close> is an async generator. Its body runs only as far as the consumer pulls:
  \<open>pulls = None\<close> is a consumer that iterates to the end, \<open>pulls = Some n\<close> one that
  leaves the iteration (\<open>break\<close>, which calls the generator's \<open>return()\<close>) on receiving
  the \<open>n\<close>-th value. The generator is then abandoned at that \<open>yield\<close>: the statements
  after it do not run. The loop returns whether the body ran to its end.
\<close>

fun emitAsyncLoop ::
  "jsvalue list \<Rightarrow> EventListenerEntry list \<Rightarrow> nat option \<Rightarrow> Emission \<Rightarrow> Emission \<times> bool" where
  "emitAsyncLoop args [] pulls acc = (acc, True)"
| "emitAsyncLoop args (entry # rest) pulls acc =
     (let yielded = (case awaitListener entry args of
                       Returns result \<Rightarrow> pushResult result (called entry acc)
                     | Throws error \<Rightarrow> pushResult error (called entry acc))
      in case pulls of
           None \<Rightarrow> emitAsyncLoop args rest None (pushIfOnce entry yielded)
         | Some n \<Rightarrow>
             if n \<le> 1 then (yielded, False)
             else emitAsyncLoop args rest (Some (n - 1)) (pushIfOnce entry yielded))"

definition emitAsync ::
  "string \<Rightarrow> jsvalue list \<Rightarrow> nat option \<Rightarrow> ResultEventEmitter \<Rightarrow> Emission \<times> ResultEventEmitter" where
  "emitAsync event args pulls em =
     (if pulls = Some 0 then (noEmission, em)
      else (case emitAsyncLoop args (getListenerEntries event em) pulls noEmission of
              (run, finished) \<Rightarrow>
                if finished
                then (run, (removeOnceListeners event (listenersToRemove run) em)
                             \<lparr>lastResults := results run\<rparr>)
                else (run, em\<lparr>lastResults := afterCalls args (invoked run) (lastResults em)\<rparr>)))"

text \<open>\<open>emitParallel\<close>: every listener is called in registration order while the promises
  are created; the results keep that order.\<close>

fun emitParallelLoop :: "jsvalue list \<Rightarrow> EventListenerEntry list \<Rightarrow> Emission \<Rightarrow> Emission" where
  "emitParallelLoop args [] acc = acc"
| "emitParallelLoop args (entry # rest) acc =
     (case awaitListener entry args of
        Returns result \<Rightarrow>
          emitParallelLoop args rest (pushResult result (pushIfOnce entry (called entry acc)))
      | Throws error \<Rightarrow>
          emitParallelLoop args rest (pushResult error (pushIfOnce entry (called entry acc))))"

definition emitParallel ::
  "string \<Rightarrow> jsvalue list \<Rightarrow> ResultEventEmitter \<Rightarrow> Emission \<times> ResultEventEmitter" where
  "emitParallel event args em =
     (let run = emitParallelLoop args (getListenerEntries event em) noEmission
      in (run, (removeOnceListeners event (listenersToRemove run) em)
                 \<lparr>lastResults := results run\<rparr>))"

text \<open>\<open>emitUntilResult\<close>: the loop returns \<open>Some result\<close> where the code returns from
  inside the loop, \<open>None\<close> where the loop runs out.\<close>

fun emitUntilResultLoop ::
  "jsvalue list \<Rightarrow> EventListenerEntry list \<Rightarrow> Emission \<Rightarrow> jsvalue option \<times> Emission" where
  "emitUntilResultLoop args [] acc = (None, acc)"
| "emitUntilResultLoop args (entry # rest) acc =
     (case call (listener entry) args of
        Returns result \<Rightarrow>
          (let acc' = pushIfOnce entry (called entry acc)
           in if result \<noteq> Undefined \<and> \<not> isPromise result then (Some result, acc')
              else emitUntilResultLoop args rest acc')
      | Throws error \<Rightarrow> emitUntilResultLoop args rest (pushIfOnce entry (called entry acc)))"

definition emitUntilResult ::
  "string \<Rightarrow> jsvalue list \<Rightarrow> ResultEventEmitter \<Rightarrow> jsvalue \<times> Emission \<times> ResultEventEmitter" where
  "emitUntilResult event args em =
     (case emitUntilResultLoop args (getListenerEntries event em) noEmission of
        (Some result, run) \<Rightarrow>
          (result, run,
           removeOnceListeners event (listenersToRemove run)
             (em\<lparr>lastResults := afterCalls args (invoked run) (lastResults em)\<rparr>))
      | (None, run) \<Rightarrow>
          (Undefined, run,
           removeOnceListeners event (listenersToRemove run)
             (em\<lparr>lastResults := afterCalls args (invoked run) (lastResults em)\<rparr>)))"

fun emitUntilResultAsyncLoop ::
  "jsvalue list \<Rightarrow> EventListenerEntry list \<Rightarrow> Emission \<Rightarrow> jsvalue option \<times> Emission" where
  "emitUntilResultAsyncLoop args [] acc = (None, acc)"
| "emitUntilResultAsyncLoop args (entry # rest) acc =
     (case awaitListener entry args of
        Returns result \<Rightarrow>
          (let acc' = pushIfOnce entry (called entry acc)
           in if result \<noteq> Undefined then (Some result, acc')
              else emitUntilResultAsyncLoop args rest acc')
      | Throws error \<Rightarrow>
          emitUntilResultAsyncLoop args rest (pushIfOnce entry (called entry acc)))"

definition emitUntilResultAsync ::
  "string \<Rightarrow> jsvalue list \<Rightarrow> ResultEventEmitter \<Rightarrow> jsvalue \<times> Emission \<times> ResultEventEmitter" where
  "emitUntilResultAsync event args em =
     (case emitUntilResultAsyncLoop args (getListenerEntries event em) noEmission of
        (Some result, run) \<Rightarrow>
          (result, run,
           removeOnceListeners event (listenersToRemove run)
             (em\<lparr>lastResults := afterCalls args (invoked run) (lastResults em)\<rparr>))
      | (None, run) \<Rightarrow>
          (Undefined, run,
           removeOnceListeners event (listenersToRemove run)
             (em\<lparr>lastResults := afterCalls args (invoked run) (lastResults em)\<rparr>)))"

section \<open>Pack: the container tree\<close>

text \<open>
  An entry of \<open>data.interactions\<close>. Only the fields that registration and dispatch read
  are kept: \<open>name\<close>, \<open>nameCombinations\<close> and \<open>options\<close> are absent on component
  registrations, and the union type \<open>Interaction\<close> also admits members without \<open>type\<close>. A
  handler is a function of the context object it is called with. Of an option of a slash
  command only its \<open>autoComplete\<close> function, if it has one, is kept.
\<close>

record CommandOption =
  autoComplete :: "(jsvalue \<Rightarrow> outcome) option"

datatype InteractionType =
    ChatInput | User | Message | Button | StringSelectMenu | UserSelectMenu
  | RoleSelectMenu | ChannelSelectMenu | MentionableSelectMenu | Modal

record Interaction =
  interactionId :: string
  itype :: "InteractionType option"
  name :: "string option"
  nameCombinations :: "string list option"
  options :: "(string \<times> CommandOption) list option"
  handle :: "jsvalue \<Rightarrow> outcome"

text \<open>The value of \<open>type\<close> in the options of \<open>Inspector.emit\<close>.\<close>

datatype EmitType =
    EmitChatInput | EmitButton | EmitStringSelectMenu | EmitUserSelectMenu
  | EmitRoleSelectMenu | EmitChannelSelectMenu | EmitMentionableSelectMenu | EmitModal
  | EmitUserContextMenu | EmitMessageContextMenu

text \<open>
  An \<open>Inspector\<close>: for chat input the map from every literal combination to the pattern
  it came from and the handlers keyed by pattern; for the nine other types one map of
  handlers keyed by id each (\<open>buttonHandlers\<close>, \<open>stringSelectMenuHandlers\<close>, ...,
  \<open>messageContextMenuHandlers\<close>), held here as one field indexed by the type that
  selects the map in \<open>emit\<close>.
\<close>

record Inspector =
  inspectorId :: string
  chatInputCombinationsMap :: "(string \<times> string) list"
  chatInputHandlers :: "(string \<times> (jsvalue \<Rightarrow> outcome)) list"
  idHandlers :: "EmitType \<Rightarrow> (string \<times> (jsvalue \<Rightarrow> outcome)) list"

text \<open>
  A \<open>Pack\<close>: its id, its private emitter \<open>_events\<close> and the collections of \<open>data\<close>
  (\<open>data.events\<close>, the registered platform-event handlers, plays no part below and is
  left out). Sub-packs are held in the tree itself, so a pack object used under two
  parents is two copies here.
\<close>

datatype Pack =
  Pack (packId: string)
       (pack_events: ResultEventEmitter)
       (locales: "(string \<times> Locale) list")
       (subPacks: "(string \<times> Pack) list")
       (interactions: "(string \<times> Interaction) list")
       (inspectors: "(string \<times> Inspector) list")

definition newPack :: "string \<Rightarrow> Pack" where
  "newPack i = Pack i newEmitter [] [] [] []"

text \<open>\<open>emitEvent\<close>: the results of this pack's own listeners, then those of every
  sub-pack in collection order, recursively.\<close>

fun emitEvent :: "string \<Rightarrow> jsvalue list \<Rightarrow> Pack \<Rightarrow> jsvalue list \<times> Pack"
  and emitEventSubPacks ::
    "string \<Rightarrow> jsvalue list \<Rightarrow> (string \<times> Pack) list \<Rightarrow> jsvalue list \<times> (string \<times> Pack) list" where
  "emitEvent event args (Pack i em ls subs ints insp) =
     (case emit event args em of
        (run, em') \<Rightarrow>
          (case emitEventSubPacks event args subs of
             (subResults, subs') \<Rightarrow> (results run @ subResults, Pack i em' ls subs' ints insp)))"
| "emitEventSubPacks event args [] = ([], [])"
| "emitEventSubPacks event args ((key, subPack) # rest) =
     (case emitEvent event args subPack of
        (subResults, subPack') \<Rightarrow>
          (case emitEventSubPacks event args rest of
             (restResults, rest') \<Rightarrow> (subResults @ restResults, (key, subPack') # rest')))"

text \<open>\<open>emitEventUntilResultSync\<close>, returning also the listener entries that were called,
  in call order.\<close>

fun emitEventUntilResultSync ::
    "string \<Rightarrow> jsvalue list \<Rightarrow> Pack \<Rightarrow> jsvalue \<times> EventListenerEntry list \<times> Pack"
  and emitEventUntilResultSyncSubPacks ::
    "string \<Rightarrow> jsvalue list \<Rightarrow> (string \<times> Pack) list
      \<Rightarrow> jsvalue \<times> EventListenerEntry list \<times> (string \<times> Pack) list" where
  "emitEventUntilResultSync event args (Pack i em ls subs ints insp) =
     (case emitUntilResult event args em of
        (thisResult, run, em') \<Rightarrow>
          if thisResult \<noteq> Undefined then (thisResult, invoked run, Pack i em' ls subs ints insp)
          else (case emitEventUntilResultSyncSubPacks event args subs of
                  (subResult, trace, subs') \<Rightarrow>
                    (subResult, invoked run @ trace, Pack i em' ls subs' ints insp)))"
| "emitEventUntilResultSyncSubPacks event args [] = (Undefined, [], [])"
| "emitEventUntilResultSyncSubPacks event args ((key, subPack) # rest) =
     (case emitEventUntilResultSync event args subPack of
        (subResult, trace, subPack') \<Rightarrow>
          if subResult \<noteq> Undefined then (subResult, trace, (key, subPack') # rest)
          else (case emitEventUntilResultSyncSubPacks event args rest of
                  (restResult, trace', rest') \<Rightarrow>
                    (restResult, trace @ trace', (key, subPack') # rest')))"

text \<open>The packs of a tree and the listener entries of an event, both in depth-first
  order, a pack before its sub-packs.\<close>

fun packsPreorder :: "Pack \<Rightarrow> Pack list"
  and packsPreorderSubPacks :: "(string \<times> Pack) list \<Rightarrow> Pack list" where
  "packsPreorder (Pack i em ls subs ints insp) =
     Pack i em ls subs ints insp # packsPreorderSubPacks subs"
| "packsPreorderSubPacks [] = []"
| "packsPreorderSubPacks ((key, subPack) # rest) =
     packsPreorder subPack @ packsPreorderSubPacks rest"

definition treeListenerEntries :: "string \<Rightarrow> Pack \<Rightarrow> EventListenerEntry list" where
  "treeListenerEntries event p =
     concat (map (\<lambda>q. getListenerEntries event (pack_events q)) (packsPreorder p))"

text \<open>A listener call ends a synchronous until-result emission when it returns a value
  that is neither \<open>undefined\<close> nor a promise.\<close>

definition givesResult :: "jsvalue list \<Rightarrow> EventListenerEntry \<Rightarrow> bool" where
  "givesResult args entry =
     (case call (listener entry) args of
        Returns result \<Rightarrow> result \<noteq> Undefined \<and> \<not> isPromise result
      | Throws error \<Rightarrow> False)"

definition returned :: "jsvalue list \<Rightarrow> EventListenerEntry \<Rightarrow> jsvalue" where
  "returned args entry =
     (case call (listener entry) args of Returns result \<Rightarrow> result | Throws error \<Rightarrow> Undefined)"

section \<open>Pack: registration\<close>

datatype error =
    AlreadyExists string
  | CommandNameNoCombinationsError
  | CommandNameExceededMaxLengthError

text \<open>\<open>String.prototype.split\<close> with a one-character separator.\<close>

fun splitOn :: "'a \<Rightarrow> 'a list \<Rightarrow> 'a list list" where
  "splitOn sep [] = [[]]"
| "splitOn sep (c # cs) =
     (if c = sep then [] # splitOn sep cs
      else (case splitOn sep cs of [] \<Rightarrow> [[c]] | w # ws \<Rightarrow> (c # w) # ws))"

record CommandConfig =
  cfg_id :: string
  cfg_name :: string
  cfg_options :: "(string \<times> CommandOption) list option"
  cfg_handle :: "jsvalue \<Rightarrow> outcome"

record ComponentConfig =
  component_id :: string
  component_handle :: "jsvalue \<Rightarrow> outcome"

definition isSlashCommandValid :: "CommandConfig \<Rightarrow> string list \<Rightarrow> error option" where
  "isSlashCommandValid cfg combinations =
     (if length combinations = 0 then Some CommandNameNoCombinationsError
      else (let nameCombinationsSplited = map (splitOn CHR '' '') combinations
            in if list_ex (\<lambda>name. length name > 3 \<or> list_ex (\<lambda>word. length word > 32) name)
                    nameCombinationsSplited
               then Some CommandNameExceededMaxLengthError
               else None))"

definition setInteractions :: "(string \<times> Interaction) list \<Rightarrow> Pack \<Rightarrow> Pack" where
  "setInteractions ints p =
     Pack (packId p) (pack_events p) (locales p) (subPacks p) ints (inspectors p)"

text \<open>The common tail of every registration method: store the entry under its id and
  emit \<open>interaction:registered\<close> through the subtree.\<close>

definition storeInteraction :: "Interaction \<Rightarrow> string \<Rightarrow> Pack \<Rightarrow> Pack" where
  "storeInteraction entry typeName p =
     snd (emitEvent ''interaction:registered''
            [Obj [(''interactionId'', Str (interactionId entry)), (''type'', Str typeName)]]
            (setInteractions (AList.update (interactionId entry) entry (interactions p)) p))"

text \<open>
  The registration methods. Each returns the error it throws, if any, and the pack as
  the call leaves it. \<open>generateCombinations\<close> (\<open>$utils/pattern\<close>) is not among the sources
  and is a parameter of \<open>slashCommand\<close>.
\<close>

definition slashCommand ::
  "(string \<Rightarrow> string list) \<Rightarrow> CommandConfig \<Rightarrow> Pack \<Rightarrow> error option \<times> Pack" where
  "slashCommand generateCombinations cfg p =
     (if map_of (interactions p) (cfg_id cfg) \<noteq> None then (Some (AlreadyExists (cfg_id cfg)), p)
      else (let combinations = generateCombinations (cfg_name cfg)
            in case isSlashCommandValid cfg combinations of
                 Some e \<Rightarrow> (Some e, p)
               | None \<Rightarrow>
                   (None, storeInteraction
                      \<lparr>interactionId = cfg_id cfg, itype = Some ChatInput,
                       name = Some (cfg_name cfg), nameCombinations = Some combinations,
                       options = cfg_options cfg, handle = cfg_handle cfg\<rparr> ''ChatInput'' p)))"


definition registerComponent ::
  "InteractionType \<Rightarrow> string \<Rightarrow> ComponentConfig \<Rightarrow> Pack \<Rightarrow> error option \<times> Pack" where
  "registerComponent ty typeName cfg p =
     (if map_of (interactions p) (component_id cfg) \<noteq> None
      then (Some (AlreadyExists (component_id cfg)), p)
      else (None, storeInteraction
              \<lparr>interactionId = component_id cfg, itype = Some ty, name = None,
               nameCombinations = None, options = None, handle = component_handle cfg\<rparr> typeName p))"



definition button :: "ComponentConfig \<Rightarrow> Pack \<Rightarrow> error option \<times> Pack" where
  "button = registerComponent Button ''Button''"










text \<open>What \<open>emit\<close> collects for one listener: its return value, or the error it threw.\<close>

definition collected :: "jsvalue list \<Rightarrow> EventListenerEntry \<Rightarrow> jsvalue" where
  "collected args entry =
     (case call (listener entry) args of Returns result \<Rightarrow> result | Throws error \<Rightarrow> error)"

text \<open>
  Scanning a list of listener entries in order: the value of the first call that gives a
  result (\<open>undefined\<close> if none does), and the entries called up to and including it.
\<close>

fun firstResult :: "jsvalue list \<Rightarrow> EventListenerEntry list \<Rightarrow> jsvalue" where
  "firstResult args [] = Undefined"
| "firstResult args (entry # rest) =
     (if givesResult args entry then returned args entry else firstResult args rest)"

fun calledUntilResult :: "jsvalue list \<Rightarrow> EventListenerEntry list \<Rightarrow> EventListenerEntry list" where
  "calledUntilResult args [] = []"
| "calledUntilResult args (entry # rest) =
     (if givesResult args entry then [entry] else entry # calledUntilResult args rest)"

section \<open>Bookkeeping of one-shot listeners\<close>

text \<open>The local array \<open>listenersToRemove\<close> holds exactly the one-shot entries among those
  called so far.\<close>

definition tracked :: "Emission \<Rightarrow> bool" where
  "tracked acc = (listenersToRemove acc = filter once (invoked acc))"

section \<open>ComponentBuilder: custom data in a component identifier\<close>

text \<open>
  A JavaScript string is a sequence of UTF-16 code units. The separator
  \<open>CUSTOM_DATA_SPLITTER\<close> and the prefix \<open>CUSTOM_DATA_NUMBER_INDICATOR\<close> are one code unit
  each (U+4C9C and U+397B).
\<close>

type_synonym ustring = "16 word list"

definition CUSTOM_DATA_SPLITTER :: "16 word" where
  "CUSTOM_DATA_SPLITTER = 0x4C9C"

definition CUSTOM_DATA_NUMBER_INDICATOR :: "16 word" where
  "CUSTOM_DATA_NUMBER_INDICATOR = 0x397B"

text \<open>
  The built-in custom data types are strings and numbers. The type of numbers is a
  parameter \<open>'n\<close>, with \<open>Number.prototype.toString\<close> and the conversion \<open>Number(...)\<close>
  passed to the functions that use them.
\<close>

datatype 'n CustomDataValue = CString ustring | CNumber 'n

text \<open>
  The optional \<open>eventEmitter\<close> argument: the listeners of the encode (decode) event
  receive \<open>eventData\<close> by reference and may rewrite its two arrays; what they do to it
  is a function of the event data. Without an emitter nothing is emitted.
\<close>

record 'n CustomDataEncodeEventData =
  enc_notParsed :: "'n CustomDataValue list"
  enc_parsed :: "ustring list"

record 'n CustomDataDecodeEventData =
  dec_notParsed :: "ustring list"
  dec_parsed :: "'n CustomDataValue list"

fun joinWith :: "'a \<Rightarrow> 'a list list \<Rightarrow> 'a list" where
  "joinWith sep [] = []"
| "joinWith sep [x] = x"
| "joinWith sep (x # y # zs) = x @ sep # joinWith sep (y # zs)"

definition encodeItem :: "('n \<Rightarrow> ustring) \<Rightarrow> 'n CustomDataValue \<Rightarrow> ustring" where
  "encodeItem toString item =
     (case item of
        CNumber n \<Rightarrow> CUSTOM_DATA_NUMBER_INDICATOR # toString n
      | CString s \<Rightarrow> s)"

definition encodeCustomDataSync ::
  "('n \<Rightarrow> ustring) \<Rightarrow> ustring \<Rightarrow> 'n CustomDataValue list option
    \<Rightarrow> ('n CustomDataEncodeEventData \<Rightarrow> 'n CustomDataEncodeEventData) option \<Rightarrow> ustring" where
  "encodeCustomDataSync toString baseId data eventEmitter =
     (case data of
        None \<Rightarrow> baseId
      | Some d \<Rightarrow>
          if length d = 0 then baseId
          else (let eventData = \<lparr>enc_notParsed = d, enc_parsed = []\<rparr>;
                    processed = (case eventEmitter of
                                   None \<Rightarrow> eventData
                                 | Some listeners \<Rightarrow> listeners eventData);
                    finalParsed = enc_parsed processed
                                    @ map (encodeItem toString) (enc_notParsed processed);
                    encodedData = joinWith CUSTOM_DATA_SPLITTER finalParsed
                in baseId @ CUSTOM_DATA_SPLITTER # encodedData))"

definition decodePart :: "(ustring \<Rightarrow> 'n) \<Rightarrow> ustring \<Rightarrow> 'n CustomDataValue" where
  "decodePart toNumber part =
     (case part of
        [] \<Rightarrow> CString part
      | c # numberValue \<Rightarrow>
          if c = CUSTOM_DATA_NUMBER_INDICATOR then CNumber (toNumber numberValue)
          else CString part)"

text \<open>\<open>parseCustomDataSync\<close> returns the pair of \<open>id\<close> and \<open>data\<close>.\<close>

definition parseCustomDataSync ::
  "(ustring \<Rightarrow> 'n) \<Rightarrow> ustring
    \<Rightarrow> ('n CustomDataDecodeEventData \<Rightarrow> 'n CustomDataDecodeEventData) option
    \<Rightarrow> ustring \<times> 'n CustomDataValue list" where
  "parseCustomDataSync toNumber customId eventEmitter =
     (case splitOn CUSTOM_DATA_SPLITTER customId of
        [] \<Rightarrow> ([], [])
      | ident # rest \<Rightarrow>
          if length (ident # rest) = 1 then (ident, [])
          else (let eventData = \<lparr>dec_notParsed = rest, dec_parsed = []\<rparr>;
                    processed = (case eventEmitter of
                                   None \<Rightarrow> eventData
                                 | Some listeners \<Rightarrow> listeners eventData)
                in (ident, dec_parsed processed
                             @ map (decodePart toNumber) (dec_notParsed processed))))"

text \<open>
  \<open>parseCustomData\<close>, the asynchronous version that dispatch uses, differs from
  \<open>parseCustomDataSync\<close> only in running the listeners of the decode event one after the
  other through \<open>emitAsync\<close>; what they do to \<open>eventData\<close> is again a function of the
  event data.
\<close>

definition parseCustomData ::
  "(ustring \<Rightarrow> 'n) \<Rightarrow> ustring
    \<Rightarrow> ('n CustomDataDecodeEventData \<Rightarrow> 'n CustomDataDecodeEventData) option
    \<Rightarrow> ustring \<times> 'n CustomDataValue list" where
  "parseCustomData toNumber customId eventEmitter =
     (case splitOn CUSTOM_DATA_SPLITTER customId of
        [] \<Rightarrow> ([], [])
      | ident # rest \<Rightarrow>
          if length (ident # rest) = 1 then (ident, [])
          else (let eventData = \<lparr>dec_notParsed = rest, dec_parsed = []\<rparr>;
                    processed = (case eventEmitter of
                                   None \<Rightarrow> eventData
                                 | Some listeners \<Rightarrow> listeners eventData)
                in (ident, dec_parsed processed
                             @ map (decodePart toNumber) (dec_notParsed processed))))"

text \<open>
  Identifiers and names of the pack model are strings of characters below U+0100; as
  JavaScript strings they are these code units.
\<close>

definition codeUnits :: "string \<Rightarrow> ustring" where
  "codeUnits s = map (\<lambda>c. of_nat (of_char c)) s"

text \<open>
  An instance of the number parameter for concrete inputs: integers and \<open>NaN\<close>, printed
  in decimal; \<open>stringToNumber\<close> reads an optional minus sign followed by decimal digits
  (the empty string reads as 0, as in JavaScript) and gives \<open>NaN\<close> on anything else.
\<close>

datatype jsnumber = Finite int | NaN

fun natToString :: "nat \<Rightarrow> ustring" where
  "natToString n =
     (if n < 10 then [0x30 + of_nat n]
      else natToString (n div 10) @ [0x30 + of_nat (n mod 10)])"

definition numberToString :: "jsnumber \<Rightarrow> ustring" where
  "numberToString x =
     (case x of
        NaN \<Rightarrow> [0x4E, 0x61, 0x4E]
      | Finite i \<Rightarrow> if i < 0 then 0x2D # natToString (nat (- i)) else natToString (nat i))"

fun digitsToNat :: "nat \<Rightarrow> ustring \<Rightarrow> nat option" where
  "digitsToNat acc [] = Some acc"
| "digitsToNat acc (c # cs) =
     (if 0x30 \<le> c \<and> c \<le> 0x39 then digitsToNat (10 * acc + (unat c - 48)) cs else None)"

definition stringToNumber :: "ustring \<Rightarrow> jsnumber" where
  "stringToNumber s =
     (case s of
        [] \<Rightarrow> Finite 0
      | c # cs \<Rightarrow>
          if c = 0x2D
          then (case cs of [] \<Rightarrow> NaN
                | d # ds \<Rightarrow> (case digitsToNat 0 cs of None \<Rightarrow> NaN | Some n \<Rightarrow> Finite (- int n)))
          else (case digitsToNat 0 s of None \<Rightarrow> NaN | Some n \<Rightarrow> Finite (int n)))"

text \<open>
  An item survives encoding and decoding when, for a string, it neither contains the
  separator nor starts with the number indicator and, for a number, its printed form is
  free of the separator and reads back as the number.
\<close>

definition roundTrips :: "('n \<Rightarrow> ustring) \<Rightarrow> (ustring \<Rightarrow> 'n) \<Rightarrow> 'n CustomDataValue \<Rightarrow> bool" where
  "roundTrips toString toNumber item =
     (case item of
        CString s \<Rightarrow>
          CUSTOM_DATA_SPLITTER \<notin> set s \<and> take 1 s \<noteq> [CUSTOM_DATA_NUMBER_INDICATOR]
      | CNumber n \<Rightarrow>
          CUSTOM_DATA_SPLITTER \<notin> set (toString n) \<and> toNumber (toString n) = n)"

section \<open>Tessen: the root, its flattened cache and the locale merge\<close>

record 'a CacheData =
  path :: "string list"
  data :: 'a

record Cache =
  cache_locales :: "(string \<times> Locale CacheData) list"
  cache_subPacks :: "(string \<times> Pack CacheData) list"
  cache_interactions :: "(string \<times> Interaction CacheData) list"
  cache_inspectors :: "(string \<times> Inspector CacheData) list"

definition emptyCache :: Cache where
  "emptyCache = \<lparr>cache_locales = [], cache_subPacks = [], cache_interactions = [],
                  cache_inspectors = []\<rparr>"

text \<open>\<open>collection.forEach((x, key) => cache.set(key, {path, data: x}))\<close>.\<close>

definition cacheAll ::
  "string list \<Rightarrow> (string \<times> 'a) list \<Rightarrow> (string \<times> 'a CacheData) list
    \<Rightarrow> (string \<times> 'a CacheData) list" where
  "cacheAll p items cached =
     fold (\<lambda>item acc. AList.update (fst item) \<lparr>path = p, data = snd item\<rparr> acc) items cached"

fun pushCache :: "Pack \<Rightarrow> string list \<Rightarrow> Cache \<Rightarrow> Cache"
  and pushCacheSubPacks :: "string \<Rightarrow> string list \<Rightarrow> (string \<times> Pack) list \<Rightarrow> Cache \<Rightarrow> Cache" where
  "pushCache (Pack i em ls subs ints insp) p c =
     pushCacheSubPacks i p subs
       (c\<lparr>cache_locales := cacheAll p ls (cache_locales c),
          cache_interactions := cacheAll p ints (cache_interactions c),
          cache_inspectors := cacheAll p insp (cache_inspectors c)\<rparr>)"
| "pushCacheSubPacks parentId p [] c = c"
| "pushCacheSubPacks parentId p ((key, subPack) # rest) c =
     pushCacheSubPacks parentId p rest
       (pushCache subPack (p @ [parentId])
          (c\<lparr>cache_subPacks := AList.update key \<lparr>path = p, data = subPack\<rparr> (cache_subPacks c)\<rparr>))"

text \<open>
  Modelled from the spec: \<open>defaultify(input, defaults, true)\<close> of the npm package
  \<open>stuffs\<close>, which is not among the sources. The spec describes it as a deep fill in
  which "defaults do not override existing": a key of \<open>defaults\<close> that \<open>input\<close> lacks is
  taken from \<open>defaults\<close>, a key at which both hold an object is filled recursively, and
  any other key of \<open>input\<close> is kept as it is.
\<close>

fun defaultify :: "ContentValue \<Rightarrow> ContentValue \<Rightarrow> ContentValue" where
  "defaultify input [] = input"
| "defaultify input ((key, dv) # rest) =
     (case map_of input key of
        None \<Rightarrow> defaultify (AList.update key dv input) rest
      | Some (CFunc s) \<Rightarrow> defaultify input rest
      | Some (CObject inner) \<Rightarrow>
          (case dv of
             CObject dinner \<Rightarrow>
               defaultify (AList.update key (CObject (defaultify inner dinner)) input) rest
           | CFunc s \<Rightarrow> defaultify input rest))"

text \<open>
  The root: the pack it is, the configured default language, the flattened cache and
  the merged content map \<open>locales.content\<close>. (The interaction locales and the two events
  emitted at the end of \<open>refresh\<close> are left out.)
\<close>

record Tessen =
  root_pack :: Pack
  config_defaults_language :: "Language option"
  cache :: Cache
  locales_content :: "(Language \<times> ContentValue) list"

text \<open>\<open>this.config.defaults?.language || 'en'\<close>: an empty string is falsy.\<close>

definition defaultLanguage :: "Tessen \<Rightarrow> Language" where
  "defaultLanguage t =
     (case config_defaults_language t of
        None \<Rightarrow> ''en''
      | Some l \<Rightarrow> if l = [] then ''en'' else l)"

text \<open>First pass of \<open>refresh\<close>: every cached locale, every language of its \<open>content\<close>.\<close>

definition mergeLocaleContent ::
  "Locale \<Rightarrow> (Language \<times> ContentValue) list \<Rightarrow> (Language \<times> ContentValue) list" where
  "mergeLocaleContent locale merged =
     fold (\<lambda>entry acc.
             AList.update (fst entry)
               (defaultify (snd entry)
                  (case map_of acc (fst entry) of None \<Rightarrow> [] | Some current \<Rightarrow> current)) acc)
          (content locale) merged"

definition firstPass ::
  "(string \<times> Locale CacheData) list \<Rightarrow> (Language \<times> ContentValue) list" where
  "firstPass cached = fold (\<lambda>entry acc. mergeLocaleContent (data (snd entry)) acc) cached []"

text \<open>Second pass: every language other than the default one is filled from the
  default language's tree.\<close>

definition secondPass ::
  "Language \<Rightarrow> (Language \<times> ContentValue) list \<Rightarrow> (Language \<times> ContentValue) list" where
  "secondPass d merged =
     (let defaultContentLocale = (case map_of merged d of None \<Rightarrow> [] | Some tree \<Rightarrow> tree)
      in fold (\<lambda>entry acc.
                 if fst entry \<noteq> d
                 then AList.update (fst entry) (defaultify (snd entry) defaultContentLocale) acc
                 else acc)
              merged merged)"

definition refresh :: "Tessen \<Rightarrow> Tessen" where
  "refresh t =
     (let c = pushCache (root_pack t) [] emptyCache
      in t\<lparr>cache := c,
           locales_content := secondPass (defaultLanguage t) (firstPass (cache_locales c))\<rparr>)"





text \<open>Every interaction registration of the tree as the cache entry \<open>pushCache\<close> writes
  for it, in the order in which \<open>pushCache\<close> visits them.\<close>

fun interactionEntries :: "Pack \<Rightarrow> string list \<Rightarrow> (string \<times> Interaction CacheData) list"
  and interactionEntriesSubPacks ::
    "string \<Rightarrow> string list \<Rightarrow> (string \<times> Pack) list \<Rightarrow> (string \<times> Interaction CacheData) list" where
  "interactionEntries (Pack i em ls subs ints insp) p =
     map (\<lambda>item. (fst item, \<lparr>path = p, data = snd item\<rparr>)) ints
       @ interactionEntriesSubPacks i p subs"
| "interactionEntriesSubPacks parentId p [] = []"
| "interactionEntriesSubPacks parentId p ((key, subPack) # rest) =
     interactionEntries subPack (p @ [parentId]) @ interactionEntriesSubPacks parentId p rest"

section \<open>Dispatch of an inbound slash command\<close>

record ChatInputCommandInteraction =
  commandName :: string
  subcommandGroup :: "string option"
  subcommand :: "string option"

definition fullCommandName :: "ChatInputCommandInteraction \<Rightarrow> string" where
  "fullCommandName interaction =
     commandName interaction
       @ (case subcommandGroup interaction of
            None \<Rightarrow> []
          | Some g \<Rightarrow> if g = [] then [] else '' '' @ g)
       @ (case subcommand interaction of
            None \<Rightarrow> []
          | Some s \<Rightarrow> if s = [] then [] else '' '' @ s)"

text \<open>\<open>await handler(ctx)\<close>.\<close>

definition awaitCall :: "(jsvalue \<Rightarrow> outcome) \<Rightarrow> jsvalue \<Rightarrow> outcome" where
  "awaitCall h ctx = (case h ctx of Throws error \<Rightarrow> Throws error | Returns v \<Rightarrow> await v)"

text \<open>The handler that \<open>Inspector.emit\<close> finds for type \<open>chatInput\<close>, if any; an empty
  original pattern is falsy. (The other types follow in the next section.)\<close>

definition chatInputHandler :: "Inspector \<Rightarrow> string \<Rightarrow> (string \<times> (jsvalue \<Rightarrow> outcome)) option" where
  "chatInputHandler inspector ident =
     (case map_of (chatInputCombinationsMap inspector) ident of
        None \<Rightarrow> None
      | Some originalPattern \<Rightarrow>
          if originalPattern = [] then None
          else (case map_of (chatInputHandlers inspector) originalPattern of
                  None \<Rightarrow> None
                | Some handler \<Rightarrow> Some (originalPattern, handler)))"

text \<open>\<open>Inspector.emit\<close> for type \<open>chatInput\<close>: the value it resolves to and the patterns
  whose handler it called. An error from the handler is swallowed.\<close>

definition inspectorEmit :: "Inspector \<Rightarrow> string \<Rightarrow> jsvalue \<Rightarrow> jsvalue \<times> string list" where
  "inspectorEmit inspector ident ctx =
     (case chatInputHandler inspector ident of
        None \<Rightarrow> (Undefined, [])
      | Some (originalPattern, handler) \<Rightarrow>
          (case awaitCall handler ctx of
             Returns v \<Rightarrow> (v, [originalPattern])
           | Throws error \<Rightarrow> (Undefined, [originalPattern])))"

text \<open>
  What dispatch called: the handler of a cached registration (with its cache key), the
  chat-input handler of a cached inspector (with the inspector's cache key and the
  pattern), the \<open>autoComplete\<close> function of an option of a cached registration (with
  the cache key and the option's name), or the handler a cached inspector has for an id
  (with the inspector's cache key, the type and the id).
\<close>

datatype Invocation =
    CommandHandle string Interaction
  | InspectorHandle string string
  | AutoCompleteHandle string Interaction string
  | InspectorIdHandle string EmitType string

record Dispatch =
  handlersInvoked :: "Invocation list"
  thrown :: "jsvalue option"

definition matchesChatInput :: "string \<Rightarrow> Interaction \<Rightarrow> bool" where
  "matchesChatInput full interactionData =
     (case nameCombinations interactionData of
        None \<Rightarrow> False
      | Some combinations \<Rightarrow>
          full \<in> set combinations
          \<and> (itype interactionData = None \<or> itype interactionData = Some ChatInput))"

fun findCommand ::
  "string \<Rightarrow> (string \<times> Interaction CacheData) list \<Rightarrow> (string \<times> Interaction) option" where
  "findCommand full [] = None"
| "findCommand full ((key, cachedInteraction) # rest) =
     (if matchesChatInput full (data cachedInteraction) then Some (key, data cachedInteraction)
      else findCommand full rest)"

fun scanInspectors ::
  "string \<Rightarrow> jsvalue \<Rightarrow> (string \<times> Inspector CacheData) list \<Rightarrow> Invocation list" where
  "scanInspectors full ctx [] = []"
| "scanInspectors full ctx ((key, cachedInspector) # rest) =
     (case inspectorEmit (data cachedInspector) full ctx of
        (result, calls) \<Rightarrow>
          map (InspectorHandle key) calls
            @ (if result \<noteq> Undefined then [] else scanInspectors full ctx rest))"

text \<open>\<open>handleChatInputCommand\<close>; \<open>ctx\<close> is the wrapper object handed to the handlers.\<close>

definition handleChatInputCommand ::
  "Tessen \<Rightarrow> ChatInputCommandInteraction \<Rightarrow> jsvalue \<Rightarrow> Dispatch" where
  "handleChatInputCommand t interaction ctx =
     (let full = fullCommandName interaction
      in case findCommand full (cache_interactions (cache t)) of
           Some (key, interactionData) \<Rightarrow>
             (case awaitCall (handle interactionData) ctx of
                Returns v \<Rightarrow>
                  \<lparr>handlersInvoked = [CommandHandle key interactionData], thrown = None\<rparr>
              | Throws error \<Rightarrow>
                  \<lparr>handlersInvoked = [CommandHandle key interactionData], thrown = Some error\<rparr>)
         | None \<Rightarrow>
             \<lparr>handlersInvoked = scanInspectors full ctx (cache_inspectors (cache t)),
              thrown = None\<rparr>)"

section \<open>Dispatch of the other inbound interactions\<close>

text \<open>The first cached registration that a dispatcher's test accepts, with its cache
  key.\<close>

fun findInteraction ::
  "(Interaction \<Rightarrow> bool) \<Rightarrow> (string \<times> Interaction CacheData) list
    \<Rightarrow> (string \<times> Interaction) option" where
  "findInteraction matches [] = None"
| "findInteraction matches ((key, cachedInteraction) # rest) =
     (if matches (data cachedInteraction) then Some (key, data cachedInteraction)
      else findInteraction matches rest)"

text \<open>
  \<open>Inspector.emit\<close> for the nine types other than \<open>chatInput\<close>: the handler is looked up
  by \<open>id\<close> in the map of the type. The ids are compared as JavaScript strings. The
  function returns the value \<open>emit\<close> resolves to and the ids whose handler it called; an
  error from the handler is swallowed.
\<close>

definition idHandler ::
  "Inspector \<Rightarrow> EmitType \<Rightarrow> ustring \<Rightarrow> (string \<times> (jsvalue \<Rightarrow> outcome)) option" where
  "idHandler inspector ty ident =
     find (\<lambda>entry. codeUnits (fst entry) = ident) (idHandlers inspector ty)"

definition inspectorEmitById ::
  "Inspector \<Rightarrow> EmitType \<Rightarrow> ustring \<Rightarrow> jsvalue \<Rightarrow> jsvalue \<times> string list" where
  "inspectorEmitById inspector ty ident ctx =
     (case idHandler inspector ty ident of
        None \<Rightarrow> (Undefined, [])
      | Some (handlerId, handler) \<Rightarrow>
          (case awaitCall handler ctx of
             Returns v \<Rightarrow> (v, [handlerId])
           | Throws error \<Rightarrow> (Undefined, [handlerId])))"

fun scanInspectorsById ::
  "EmitType \<Rightarrow> ustring \<Rightarrow> jsvalue \<Rightarrow> (string \<times> Inspector CacheData) list \<Rightarrow> Invocation list" where
  "scanInspectorsById ty ident ctx [] = []"
| "scanInspectorsById ty ident ctx ((key, cachedInspector) # rest) =
     (case inspectorEmitById (data cachedInspector) ty ident ctx of
        (result, calls) \<Rightarrow>
          map (InspectorIdHandle key ty) calls
            @ (if result \<noteq> Undefined then [] else scanInspectorsById ty ident ctx rest))"

text \<open>What a dispatcher does with the registration it found: \<open>await
  interactionData.handle(wrapper); return\<close>.\<close>

definition callHandle :: "string \<Rightarrow> Interaction \<Rightarrow> jsvalue \<Rightarrow> Dispatch" where
  "callHandle key interactionData ctx =
     (case awaitCall (handle interactionData) ctx of
        Returns v \<Rightarrow> \<lparr>handlersInvoked = [CommandHandle key interactionData], thrown = None\<rparr>
      | Throws error \<Rightarrow>
          \<lparr>handlersInvoked = [CommandHandle key interactionData], thrown = Some error\<rparr>)"

text \<open>
  \<open>handleUserContextMenuCommand\<close> and \<open>handleMessageContextMenuCommand\<close> are the same
  function up to the registration type they look for and the type they emit to the
  inspectors with.
\<close>

definition matchesContextMenu :: "InteractionType \<Rightarrow> string \<Rightarrow> Interaction \<Rightarrow> bool" where
  "matchesContextMenu ty cmdName interactionData =
     (itype interactionData = Some ty \<and> name interactionData = Some cmdName)"

definition handleContextMenuCommand ::
  "InteractionType \<Rightarrow> EmitType \<Rightarrow> Tessen \<Rightarrow> string \<Rightarrow> jsvalue \<Rightarrow> Dispatch" where
  "handleContextMenuCommand ty emitType t cmdName ctx =
     (case findInteraction (matchesContextMenu ty cmdName) (cache_interactions (cache t)) of
        Some (key, interactionData) \<Rightarrow> callHandle key interactionData ctx
      | None \<Rightarrow>
          \<lparr>handlersInvoked =
             scanInspectorsById emitType (codeUnits cmdName) ctx (cache_inspectors (cache t)),
           thrown = None\<rparr>)"

definition handleUserContextMenuCommand :: "Tessen \<Rightarrow> string \<Rightarrow> jsvalue \<Rightarrow> Dispatch" where
  "handleUserContextMenuCommand = handleContextMenuCommand User EmitUserContextMenu"

definition handleMessageContextMenuCommand :: "Tessen \<Rightarrow> string \<Rightarrow> jsvalue \<Rightarrow> Dispatch" where
  "handleMessageContextMenuCommand = handleContextMenuCommand Message EmitMessageContextMenu"

text \<open>
  The seven component dispatchers (button, the five select menus, modal) are the same
  function up to these two types as well. The identifier of the inbound component is
  parsed with the root's emitter, whose decode listeners are \<open>decodeListeners\<close>;
  \<open>wrapper\<close> builds the context object from the parsed id and data.
\<close>

definition matchesComponent :: "InteractionType \<Rightarrow> ustring \<Rightarrow> Interaction \<Rightarrow> bool" where
  "matchesComponent ty baseCustomId interactionData =
     (itype interactionData = Some ty \<and> codeUnits (interactionId interactionData) = baseCustomId)"

definition handleComponentInteraction ::
  "InteractionType \<Rightarrow> EmitType \<Rightarrow> (ustring \<Rightarrow> 'n)
    \<Rightarrow> ('n CustomDataDecodeEventData \<Rightarrow> 'n CustomDataDecodeEventData)
    \<Rightarrow> (ustring \<Rightarrow> 'n CustomDataValue list \<Rightarrow> jsvalue) \<Rightarrow> Tessen \<Rightarrow> ustring \<Rightarrow> Dispatch" where
  "handleComponentInteraction ty emitType toNumber decodeListeners wrapper t customId =
     (case parseCustomData toNumber customId (Some decodeListeners) of
        (baseCustomId, parsed) \<Rightarrow>
          (case findInteraction (matchesComponent ty baseCustomId)
                  (cache_interactions (cache t)) of
             Some (key, interactionData) \<Rightarrow>
               callHandle key interactionData (wrapper baseCustomId parsed)
           | None \<Rightarrow>
               \<lparr>handlersInvoked =
                  scanInspectorsById emitType baseCustomId (wrapper baseCustomId parsed)
                    (cache_inspectors (cache t)),
                thrown = None\<rparr>))"

definition handleButtonInteraction ::
  "(ustring \<Rightarrow> 'n) \<Rightarrow> ('n CustomDataDecodeEventData \<Rightarrow> 'n CustomDataDecodeEventData)
    \<Rightarrow> (ustring \<Rightarrow> 'n CustomDataValue list \<Rightarrow> jsvalue) \<Rightarrow> Tessen \<Rightarrow> ustring \<Rightarrow> Dispatch" where
  "handleButtonInteraction = handleComponentInteraction Button EmitButton"

definition handleStringSelectMenuInteraction ::
  "(ustring \<Rightarrow> 'n) \<Rightarrow> ('n CustomDataDecodeEventData \<Rightarrow> 'n CustomDataDecodeEventData)
    \<Rightarrow> (ustring \<Rightarrow> 'n CustomDataValue list \<Rightarrow> jsvalue) \<Rightarrow> Tessen \<Rightarrow> ustring \<Rightarrow> Dispatch" where
  "handleStringSelectMenuInteraction =
     handleComponentInteraction StringSelectMenu EmitStringSelectMenu"

definition handleUserSelectMenuInteraction ::
  "(ustring \<Rightarrow> 'n) \<Rightarrow> ('n CustomDataDecodeEventData \<Rightarrow> 'n CustomDataDecodeEventData)
    \<Rightarrow> (ustring \<Rightarrow> 'n CustomDataValue list \<Rightarrow> jsvalue) \<Rightarrow> Tessen \<Rightarrow> ustring \<Rightarrow> Dispatch" where
  "handleUserSelectMenuInteraction = handleComponentInteraction UserSelectMenu EmitUserSelectMenu"

definition handleRoleSelectMenuInteraction ::
  "(ustring \<Rightarrow> 'n) \<Rightarrow> ('n CustomDataDecodeEventData \<Rightarrow> 'n CustomDataDecodeEventData)
    \<Rightarrow> (ustring \<Rightarrow> 'n CustomDataValue list \<Rightarrow> jsvalue) \<Rightarrow> Tessen \<Rightarrow> ustring \<Rightarrow> Dispatch" where
  "handleRoleSelectMenuInteraction = handleComponentInteraction RoleSelectMenu EmitRoleSelectMenu"

definition handleChannelSelectMenuInteraction ::
  "(ustring \<Rightarrow> 'n) \<Rightarrow> ('n CustomDataDecodeEventData \<Rightarrow> 'n CustomDataDecodeEventData)
    \<Rightarrow> (ustring \<Rightarrow> 'n CustomDataValue list \<Rightarrow> jsvalue) \<Rightarrow> Tessen \<Rightarrow> ustring \<Rightarrow> Dispatch" where
  "handleChannelSelectMenuInteraction =
     handleComponentInteraction ChannelSelectMenu EmitChannelSelectMenu"

definition handleMentionableSelectMenuInteraction ::
  "(ustring \<Rightarrow> 'n) \<Rightarrow> ('n CustomDataDecodeEventData \<Rightarrow> 'n CustomDataDecodeEventData)
    \<Rightarrow> (ustring \<Rightarrow> 'n CustomDataValue list \<Rightarrow> jsvalue) \<Rightarrow> Tessen \<Rightarrow> ustring \<Rightarrow> Dispatch" where
  "handleMentionableSelectMenuInteraction =
     handleComponentInteraction MentionableSelectMenu EmitMentionableSelectMenu"

definition handleModalSubmitInteraction ::
  "(ustring \<Rightarrow> 'n) \<Rightarrow> ('n CustomDataDecodeEventData \<Rightarrow> 'n CustomDataDecodeEventData)
    \<Rightarrow> (ustring \<Rightarrow> 'n CustomDataValue list \<Rightarrow> jsvalue) \<Rightarrow> Tessen \<Rightarrow> ustring \<Rightarrow> Dispatch" where
  "handleModalSubmitInteraction = handleComponentInteraction Modal EmitModal"

text \<open>
  \<open>handleAutocompleteInteraction\<close>: the scan stops at the first cached slash command that
  matches the full command name and has an \<open>autoComplete\<close> function for the focused
  option; a matching command without one is passed over. The function is called inside
  \<open>try\<close>, so an error it throws goes no further. (What \<open>interaction.respond\<close> does with
  the choices is outside the model.)
\<close>

definition autoCompleteFor :: "string \<Rightarrow> string \<Rightarrow> Interaction \<Rightarrow> (jsvalue \<Rightarrow> outcome) option" where
  "autoCompleteFor full focusedName interactionData =
     (if matchesChatInput full interactionData
      then (case options interactionData of
              None \<Rightarrow> None
            | Some opts \<Rightarrow>
                (case map_of opts focusedName of
                   None \<Rightarrow> None
                 | Some option \<Rightarrow> autoComplete option))
      else None)"

fun findAutoComplete ::
  "string \<Rightarrow> string \<Rightarrow> (string \<times> Interaction CacheData) list
    \<Rightarrow> (string \<times> Interaction \<times> (jsvalue \<Rightarrow> outcome)) option" where
  "findAutoComplete full focusedName [] = None"
| "findAutoComplete full focusedName ((key, cachedInteraction) # rest) =
     (case autoCompleteFor full focusedName (data cachedInteraction) of
        Some f \<Rightarrow> Some (key, data cachedInteraction, f)
      | None \<Rightarrow> findAutoComplete full focusedName rest)"

definition handleAutocompleteInteraction ::
  "Tessen \<Rightarrow> ChatInputCommandInteraction \<Rightarrow> string \<Rightarrow> jsvalue \<Rightarrow> Dispatch" where
  "handleAutocompleteInteraction t interaction focusedName autocompleteContext =
     (case findAutoComplete (fullCommandName interaction) focusedName
             (cache_interactions (cache t)) of
        Some (key, interactionData, f) \<Rightarrow>
          (case awaitCall f autocompleteContext of
             Returns choices \<Rightarrow>
               \<lparr>handlersInvoked = [AutoCompleteHandle key interactionData focusedName],
                thrown = None\<rparr>
           | Throws error \<Rightarrow>
               \<lparr>handlersInvoked = [AutoCompleteHandle key interactionData focusedName],
                thrown = None\<rparr>)
      | None \<Rightarrow> \<lparr>handlersInvoked = [], thrown = None\<rparr>)"

text \<open>
  An inbound interaction, by the type guard of \<open>handleInteraction\<close> that accepts it: a
  command with its name parts (for autocomplete also the name of the focused option), a
  context-menu command with its name, a component with its \<open>customId\<close>; \<open>IsOther\<close> is an
  interaction that no guard accepts.
\<close>

datatype DiscordInteraction =
    IsAutocomplete ChatInputCommandInteraction string
  | IsChatInputCommand ChatInputCommandInteraction
  | IsUserContextMenuCommand string
  | IsMessageContextMenuCommand string
  | IsButton ustring
  | IsStringSelectMenu ustring
  | IsUserSelectMenu ustring
  | IsRoleSelectMenu ustring
  | IsChannelSelectMenu ustring
  | IsMentionableSelectMenu ustring
  | IsModalSubmit ustring
  | IsOther

text \<open>
  \<open>handleInteraction\<close>. \<open>ctx\<close> is the wrapper object of a command and
  \<open>autocompleteContext\<close> the context object of an autocomplete call. An error thrown by a
  dispatcher is caught and reported through the event \<open>tescord:interactionHandlerError\<close>;
  \<open>thrown\<close> is the error so reported, and the emission of the event is left out.
\<close>

definition handleInteraction ::
  "(ustring \<Rightarrow> 'n) \<Rightarrow> ('n CustomDataDecodeEventData \<Rightarrow> 'n CustomDataDecodeEventData)
    \<Rightarrow> (ustring \<Rightarrow> 'n CustomDataValue list \<Rightarrow> jsvalue) \<Rightarrow> jsvalue \<Rightarrow> jsvalue
    \<Rightarrow> Tessen \<Rightarrow> DiscordInteraction \<Rightarrow> Dispatch" where
  "handleInteraction toNumber decodeListeners wrapper ctx autocompleteContext t interaction =
     (case interaction of
        IsAutocomplete i focusedName \<Rightarrow>
          handleAutocompleteInteraction t i focusedName autocompleteContext
      | IsChatInputCommand i \<Rightarrow> handleChatInputCommand t i ctx
      | IsUserContextMenuCommand cmdName \<Rightarrow> handleUserContextMenuCommand t cmdName ctx
      | IsMessageContextMenuCommand cmdName \<Rightarrow>
          handleMessageContextMenuCommand t cmdName ctx
      | IsButton customId \<Rightarrow>
          handleButtonInteraction toNumber decodeListeners wrapper t customId
      | IsStringSelectMenu customId \<Rightarrow>
          handleStringSelectMenuInteraction toNumber decodeListeners wrapper t customId
      | IsUserSelectMenu customId \<Rightarrow>
          handleUserSelectMenuInteraction toNumber decodeListeners wrapper t customId
      | IsRoleSelectMenu customId \<Rightarrow>
          handleRoleSelectMenuInteraction toNumber decodeListeners wrapper t customId
      | IsChannelSelectMenu customId \<Rightarrow>
          handleChannelSelectMenuInteraction toNumber decodeListeners wrapper t customId
      | IsMentionableSelectMenu customId \<Rightarrow>
          handleMentionableSelectMenuInteraction toNumber decodeListeners wrapper t customId
      | IsModalSubmit customId \<Rightarrow>
          handleModalSubmitInteraction toNumber decodeListeners wrapper t customId
      | IsOther \<Rightarrow> \<lparr>handlersInvoked = [], thrown = None\<rparr>)"

text \<open>The cached registration whose function an invocation called, if it is one of a
  registration.\<close>

fun registrationOf :: "Invocation \<Rightarrow> (string \<times> Interaction) option" where
  "registrationOf (CommandHandle key interactionData) = Some (key, interactionData)"
| "registrationOf (AutoCompleteHandle key interactionData optionName) = Some (key, interactionData)"
| "registrationOf (InspectorHandle key pattern) = None"
| "registrationOf (InspectorIdHandle key ty handlerId) = None"

text \<open>Writing a list of entries into a collection, one \<open>set\<close> after the other.\<close>

definition setAll :: "(string \<times> 'a) list \<Rightarrow> (string \<times> 'a) list \<Rightarrow> (string \<times> 'a) list" where
  "setAll entries cached = fold (\<lambda>entry acc. AList.update (fst entry) (snd entry) acc) entries cached"

section \<open>Properties of the content merge\<close>








lemma plainKeys_emptyObject [simp]: "plainKeys (fst emptyObject)"
  by (simp add: emptyObject_def)


















text \<open>The key \<open>__proto__\<close> of a fragment leaves no entry in the merged tree.\<close>

lemma deepMerge_proto_key_not_stored:
  "deepMerge [[(''__proto__'', PString ''x''), (''a'', PString ''1'')]] = [(''a'', PString ''1'')]
   \<and> deepMerge [[(''__proto__'', PObject [(''b'', PString ''2'')]), (''a'', PString ''1'')]]
       = [(''a'', PString ''1'')]"
  by (simp add: deepMerge_def emptyObject_def assignString_def assignObject_def protoKey_def
      existingObject_def getProperty_def)





section \<open>Event propagation through the tree\<close>

lemma call_plainListener [simp]: "call (plainListener f) = f"
  by (simp add: plainListener_def)

lemma leaves_plainListener [simp]: "leaves (plainListener f) args r = r"
  by (simp add: plainListener_def)

lemma afterCalls_Nil [simp]: "afterCalls args [] r = r"
  by (simp add: afterCalls_def)

lemma afterCalls_Cons [simp]:
  "afterCalls args (entry # entries) r = afterCalls args entries (leaves (listener entry) args r)"
  by (simp add: afterCalls_def)

lemma emitLoop_invoked:
  "invoked (emitLoop args es acc) = invoked acc @ es"
  by (induction es arbitrary: acc)
     (auto simp: called_def touched_def pushResult_def pushIfOnce_def split: outcome.splits)

lemma emitLoop_listenersToRemove:
  "listenersToRemove (emitLoop args es acc) = listenersToRemove acc @ filter once es"
  by (induction es arbitrary: acc)
     (auto simp: called_def touched_def pushResult_def pushIfOnce_def split: outcome.splits)

text \<open>Where no listener touches the emitter, \<open>emit\<close> returns what the listeners returned
  or threw, in registration order, and \<open>emitEvent\<close> returns these lists pack by pack in
  depth-first order, a pack before its sub-packs.\<close>

lemma emitLoop_results_plain:
  "(\<And>e r. e \<in> set es \<Longrightarrow> leaves (listener e) args r = r) \<Longrightarrow>
     results (emitLoop args es acc) = results acc @ map (collected args) es"
proof (induction es arbitrary: acc)
  case Nil
  show ?case by simp
next
  case (Cons e es)
  have t: "touched e args acc' = acc'" for acc'
    using Cons.prems [of e] by (simp add: touched_def)
  have r: "results (emitLoop args es acc') = results acc' @ map (collected args) es" for acc'
    using Cons.IH [of acc'] Cons.prems by simp
  show ?case
    by (cases "call (listener e) args")
       (simp_all add: t r collected_def called_def pushResult_def pushIfOnce_def)
qed

lemma emit_results_plain:
  "(\<And>e r. e \<in> set (getListenerEntries event em) \<Longrightarrow> leaves (listener e) args r = r) \<Longrightarrow>
     results (fst (emit event args em)) = map (collected args) (getListenerEntries event em)"
  using emitLoop_results_plain [of "getListenerEntries event em" args noEmission]
  by (simp add: emit_def Let_def noEmission_def)

lemma treeListenerEntries_Pack:
  "treeListenerEntries event (Pack i em ls subs ints insp)
     = getListenerEntries event em
       @ concat (map (\<lambda>q. getListenerEntries event (pack_events q)) (packsPreorderSubPacks subs))"
  by (simp add: treeListenerEntries_def)

lemma emitEvent_results_plain:
  "(\<And>e r. e \<in> set (treeListenerEntries event p) \<Longrightarrow> leaves (listener e) args r = r) \<Longrightarrow>
     fst (emitEvent event args p) = map (collected args) (treeListenerEntries event p)"
  "(\<And>e r. e \<in> set (concat (map (\<lambda>q. getListenerEntries event (pack_events q))
                           (packsPreorderSubPacks subs))) \<Longrightarrow> leaves (listener e) args r = r) \<Longrightarrow>
     fst (emitEventSubPacks event args subs)
       = map (collected args)
           (concat (map (\<lambda>q. getListenerEntries event (pack_events q)) (packsPreorderSubPacks subs)))"
proof (induction event args p and event args subs rule: emitEvent_emitEventSubPacks.induct)
  case (1 event args i em ls subs ints insp)
  obtain run em' where e: "emit event args em = (run, em')" by (cases "emit event args em")
  obtain sr subs' where s: "emitEventSubPacks event args subs = (sr, subs')"
    by (cases "emitEventSubPacks event args subs")
  have own: "results run = map (collected args) (getListenerEntries event em)"
    using emit_results_plain [of event em args] e 1(2)
    by (simp add: treeListenerEntries_Pack)
  have "sr = map (collected args)
      (concat (map (\<lambda>q. getListenerEntries event (pack_events q)) (packsPreorderSubPacks subs)))"
    using 1(1) [OF e [symmetric]] s 1(2) by (simp add: treeListenerEntries_Pack)
  with own show ?case using e s by (simp add: treeListenerEntries_Pack)
next
  case (2 event args)
  show ?case by simp
next
  case (3 event args key subPack rest)
  obtain sr sp' where e: "emitEvent event args subPack = (sr, sp')"
    by (cases "emitEvent event args subPack")
  obtain rr rest' where s: "emitEventSubPacks event args rest = (rr, rest')"
    by (cases "emitEventSubPacks event args rest")
  have "sr = map (collected args) (treeListenerEntries event subPack)"
    using 3(1) e 3(3) by (simp add: treeListenerEntries_def)
  moreover have "rr = map (collected args)
      (concat (map (\<lambda>q. getListenerEntries event (pack_events q)) (packsPreorderSubPacks rest)))"
    using 3(2) [OF e [symmetric]] s 3(3) by simp
  ultimately show ?case using e s by (simp add: treeListenerEntries_def)
qed

text \<open>
  C3 at the failing input. The root has one listener for \<open>ready\<close> and one child, which
  has one listener for \<open>ready\<close>. The root's listener emits another event, \<open>x\<close>, on the
  root before it returns \<open>parent\<close>; the root has a listener for \<open>x\<close> that returns \<open>X\<close>. The
  nested \<open>emit\<close> replaces the array in \<open>this.lastResults\<close> that the outer \<open>emit\<close> is
  collecting into, so the outer \<open>emit\<close> pushes \<open>parent\<close> behind \<open>X\<close> and \<open>emitEvent\<close>
  returns three entries, the first of which is no result of a \<open>ready\<close> listener.
  \<open>emitParallel\<close> and a drained \<open>emitAsync\<close>, which collect into a local array, return
  the one result of the root's \<open>ready\<close> listener on the same emitter.
\<close>

theorem emitEvent_reentrant_listener_results:
  "fst (emitEvent ''ready'' []
     (Pack ''root''
        (on ''x'' (plainListener (\<lambda>a. Returns (Str ''X'')))
          (on ''ready''
             \<lparr>call = (\<lambda>a. Returns (Str ''parent'')),
              leaves = reentrant ''x'' []
                         (on ''x'' (plainListener (\<lambda>a. Returns (Str ''X''))) newEmitter)\<rparr>
             newEmitter)) []
        [(''child'',
          Pack ''child'' (on ''ready'' (plainListener (\<lambda>a. Returns (Str ''child''))) newEmitter)
            [] [] [] [])] [] []))
     = [Str ''X'', Str ''parent'', Str ''child'']
   \<and> length (treeListenerEntries ''ready''
     (Pack ''root''
        (on ''x'' (plainListener (\<lambda>a. Returns (Str ''X'')))
          (on ''ready''
             \<lparr>call = (\<lambda>a. Returns (Str ''parent'')),
              leaves = reentrant ''x'' []
                         (on ''x'' (plainListener (\<lambda>a. Returns (Str ''X''))) newEmitter)\<rparr>
             newEmitter)) []
        [(''child'',
          Pack ''child'' (on ''ready'' (plainListener (\<lambda>a. Returns (Str ''child''))) newEmitter)
            [] [] [] [])] [] [])) = 2
   \<and> results (fst (emitParallel ''ready'' []
        (on ''x'' (plainListener (\<lambda>a. Returns (Str ''X'')))
          (on ''ready''
             \<lparr>call = (\<lambda>a. Returns (Str ''parent'')),
              leaves = reentrant ''x'' []
                         (on ''x'' (plainListener (\<lambda>a. Returns (Str ''X''))) newEmitter)\<rparr>
             newEmitter)))) = [Str ''parent'']
   \<and> results (fst (emitAsync ''ready'' [] None
        (on ''x'' (plainListener (\<lambda>a. Returns (Str ''X'')))
          (on ''ready''
             \<lparr>call = (\<lambda>a. Returns (Str ''parent'')),
              leaves = reentrant ''x'' []
                         (on ''x'' (plainListener (\<lambda>a. Returns (Str ''X''))) newEmitter)\<rparr>
             newEmitter)))) = [Str ''parent'']"
  by (simp add: emit_def emitParallel_def emitAsync_def awaitListener_def reentrant_def
      treeListenerEntries_def getListenerEntries_def on_def addListenerInternal_def
      newEmitter_def plainListener_def Let_def noEmission_def called_def touched_def
      pushResult_def pushIfOnce_def removeOnceListeners_def)

lemma givesResult_returned: "givesResult args e \<Longrightarrow> returned args e \<noteq> Undefined"
  by (auto simp: givesResult_def returned_def split: outcome.splits)

lemma untilLoop_fst:
  "fst (emitUntilResultLoop args es acc)
     = (if firstResult args es = Undefined then None else Some (firstResult args es))"
proof (induction es arbitrary: acc)
  case Nil
  show ?case by simp
next
  case (Cons e es)
  show ?case
  proof (cases "givesResult args e")
    case True
    then show ?thesis using givesResult_returned [OF True]
      by (auto simp: givesResult_def returned_def Let_def split: outcome.splits)
  next
    case False
    then show ?thesis using Cons
      by (auto simp: givesResult_def Let_def split: outcome.splits)
  qed
qed

lemma untilLoop_invoked:
  "invoked (snd (emitUntilResultLoop args es acc)) = invoked acc @ calledUntilResult args es"
proof (induction es arbitrary: acc)
  case Nil
  show ?case by simp
next
  case (Cons e es)
  show ?case
  proof (cases "givesResult args e")
    case True
    then show ?thesis
      by (auto simp: givesResult_def called_def pushIfOnce_def Let_def split: outcome.splits)
  next
    case False
    then show ?thesis using Cons
      by (auto simp: givesResult_def called_def pushIfOnce_def Let_def split: outcome.splits)
  qed
qed

lemma emitUntilResult_fst:
  "fst (emitUntilResult event args em) = firstResult args (getListenerEntries event em)"
proof -
  obtain r run where l: "emitUntilResultLoop args (getListenerEntries event em) noEmission = (r, run)"
    by (cases "emitUntilResultLoop args (getListenerEntries event em) noEmission")
  have "r = (if firstResult args (getListenerEntries event em) = Undefined then None
             else Some (firstResult args (getListenerEntries event em)))"
    using untilLoop_fst [of args "getListenerEntries event em" noEmission] l by simp
  then show ?thesis using l
    by (cases "firstResult args (getListenerEntries event em) = Undefined")
       (simp_all add: emitUntilResult_def)
qed

lemma emitUntilResult_invoked:
  "invoked (fst (snd (emitUntilResult event args em)))
     = calledUntilResult args (getListenerEntries event em)"
proof -
  obtain r run where l: "emitUntilResultLoop args (getListenerEntries event em) noEmission = (r, run)"
    by (cases "emitUntilResultLoop args (getListenerEntries event em) noEmission")
  have "invoked run = calledUntilResult args (getListenerEntries event em)"
    using untilLoop_invoked [of args "getListenerEntries event em" noEmission] l
    by (simp add: noEmission_def)
  then show ?thesis using l by (cases r) (simp_all add: emitUntilResult_def)
qed

lemma firstResult_append:
  "firstResult args (xs @ ys)
     = (if firstResult args xs \<noteq> Undefined then firstResult args xs else firstResult args ys)"
  by (induction xs) (auto simp: givesResult_returned)

lemma calledUntilResult_append:
  "calledUntilResult args (xs @ ys)
     = (if firstResult args xs \<noteq> Undefined then calledUntilResult args xs
        else calledUntilResult args xs @ calledUntilResult args ys)"
  by (induction xs) (auto simp: givesResult_returned)

lemma untilResult_tree:
  "fst (emitEventUntilResultSync event args p) = firstResult args (treeListenerEntries event p)
   \<and> fst (snd (emitEventUntilResultSync event args p))
       = calledUntilResult args (treeListenerEntries event p)"
  "fst (emitEventUntilResultSyncSubPacks event args subs)
     = firstResult args
         (concat (map (\<lambda>q. getListenerEntries event (pack_events q)) (packsPreorderSubPacks subs)))
   \<and> fst (snd (emitEventUntilResultSyncSubPacks event args subs))
       = calledUntilResult args
         (concat (map (\<lambda>q. getListenerEntries event (pack_events q)) (packsPreorderSubPacks subs)))"
proof (induction event args p and event args subs
    rule: emitEventUntilResultSync_emitEventUntilResultSyncSubPacks.induct)
  case (1 event args i em ls subs ints insp)
  obtain r run em' where e: "emitUntilResult event args em = (r, run, em')"
    by (cases "emitUntilResult event args em") auto
  have r: "r = firstResult args (getListenerEntries event em)"
    using emitUntilResult_fst [of event args em] e by simp
  have t: "invoked run = calledUntilResult args (getListenerEntries event em)"
    using emitUntilResult_invoked [of event args em] e by simp
  show ?case
  proof (cases "r = Undefined")
    case False
    then show ?thesis using e r t
      by (simp add: treeListenerEntries_Pack firstResult_append calledUntilResult_append)
  next
    case True
    obtain sr tr subs' where s: "emitEventUntilResultSyncSubPacks event args subs = (sr, tr, subs')"
      by (cases "emitEventUntilResultSyncSubPacks event args subs") auto
    from 1 [of r "(run, em')" run em'] e True s
    have "sr = firstResult args
         (concat (map (\<lambda>q. getListenerEntries event (pack_events q)) (packsPreorderSubPacks subs)))"
      and "tr = calledUntilResult args
         (concat (map (\<lambda>q. getListenerEntries event (pack_events q)) (packsPreorderSubPacks subs)))"
      by simp_all
    then show ?thesis using e r t s True
      by (simp add: treeListenerEntries_Pack firstResult_append calledUntilResult_append)
  qed
next
  case (2 event args)
  show ?case by simp
next
  case (3 event args key subPack rest)
  obtain r tr sp' where e: "emitEventUntilResultSync event args subPack = (r, tr, sp')"
    by (cases "emitEventUntilResultSync event args subPack") auto
  have r: "r = firstResult args (treeListenerEntries event subPack)"
    and t: "tr = calledUntilResult args (treeListenerEntries event subPack)"
    using 3(1) e by simp_all
  show ?case
  proof (cases "r = Undefined")
    case False
    then show ?thesis using e r t
      by (simp add: treeListenerEntries_def firstResult_append calledUntilResult_append)
  next
    case True
    obtain sr tr' rest' where s: "emitEventUntilResultSyncSubPacks event args rest = (sr, tr', rest')"
      by (cases "emitEventUntilResultSyncSubPacks event args rest") auto
    from 3(2) [of r "(tr, sp')" tr sp'] e True s
    have "sr = firstResult args
         (concat (map (\<lambda>q. getListenerEntries event (pack_events q)) (packsPreorderSubPacks rest)))"
      and "tr' = calledUntilResult args
         (concat (map (\<lambda>q. getListenerEntries event (pack_events q)) (packsPreorderSubPacks rest)))"
      by simp_all
    then show ?thesis using e r t s True
      by (simp add: treeListenerEntries_def firstResult_append calledUntilResult_append)
  qed
qed

lemma calledUntilResult_prefix: "\<exists>rest. xs = calledUntilResult args xs @ rest"
  by (induction xs) auto

lemma calledUntilResult_butlast:
  "e \<in> set (butlast (calledUntilResult args xs)) \<Longrightarrow> \<not> givesResult args e"
  by (induction xs) (auto split: if_splits)

lemma calledUntilResult_hit:
  "firstResult args xs \<noteq> Undefined \<Longrightarrow>
     calledUntilResult args xs \<noteq> [] \<and> givesResult args (last (calledUntilResult args xs))
     \<and> firstResult args xs = returned args (last (calledUntilResult args xs))"
  by (induction xs) (auto split: if_splits)

lemma calledUntilResult_miss:
  "firstResult args xs = Undefined \<Longrightarrow>
     calledUntilResult args xs = xs \<and> (\<forall>e\<in>set xs. \<not> givesResult args e)"
  by (induction xs) (auto split: if_splits simp: givesResult_returned)

text \<open>
  C4 (as amended). \<open>emitEventUntilResultSync\<close> scans the pack's own listeners and then its
  sub-packs in collection order, depth first, and returns the first listener result that
  is neither \<open>undefined\<close> nor a promise (\<open>undefined\<close> if there is none). The listeners
  called are exactly those up to and including the one that gave this result: no
  listener is called after it, in the same pack or in a later one.
\<close>

theorem emitEventUntilResultSync_first_result:
  "fst (emitEventUntilResultSync event args p) = firstResult args (treeListenerEntries event p)
   \<and> fst (snd (emitEventUntilResultSync event args p))
       = calledUntilResult args (treeListenerEntries event p)
   \<and> (\<exists>rest. treeListenerEntries event p = fst (snd (emitEventUntilResultSync event args p)) @ rest)
   \<and> (\<forall>e\<in>set (butlast (fst (snd (emitEventUntilResultSync event args p)))).
         \<not> givesResult args e)
   \<and> (fst (emitEventUntilResultSync event args p) \<noteq> Undefined \<longrightarrow>
         fst (snd (emitEventUntilResultSync event args p)) \<noteq> []
         \<and> givesResult args (last (fst (snd (emitEventUntilResultSync event args p))))
         \<and> fst (emitEventUntilResultSync event args p)
             = returned args (last (fst (snd (emitEventUntilResultSync event args p)))))
   \<and> (fst (emitEventUntilResultSync event args p) = Undefined \<longrightarrow>
         fst (snd (emitEventUntilResultSync event args p)) = treeListenerEntries event p
         \<and> (\<forall>e\<in>set (treeListenerEntries event p). \<not> givesResult args e))"
proof -
  let ?all = "treeListenerEntries event p"
  have r: "fst (emitEventUntilResultSync event args p) = firstResult args ?all"
    and t: "fst (snd (emitEventUntilResultSync event args p)) = calledUntilResult args ?all"
    using untilResult_tree(1) [of event args p] by simp_all
  show ?thesis
    unfolding r t
    using calledUntilResult_prefix [of ?all args] calledUntilResult_butlast [of _ args ?all]
      calledUntilResult_hit [of args ?all] calledUntilResult_miss [of args ?all]
    by blast
qed

theorem emitEventUntilResultSync_first_result_witness:
  "fst (emitEventUntilResultSync ''e'' []
     (Pack ''root'' (on ''e'' (plainListener (\<lambda>a. Returns Undefined)) newEmitter) []
        [(''c1'', Pack ''c1'' (on ''e'' (plainListener (\<lambda>a. Returns (Num 2))) newEmitter) [] [] [] []),
         (''c2'', Pack ''c2'' (on ''e'' (plainListener (\<lambda>a. Returns (Num 3))) newEmitter) [] [] [] [])]
        [] [])) = Num 2
   \<and> fst (snd (emitEventUntilResultSync ''e'' []
     (Pack ''root'' (on ''e'' (plainListener (\<lambda>a. Returns Undefined)) newEmitter) []
        [(''c1'', Pack ''c1'' (on ''e'' (plainListener (\<lambda>a. Returns (Num 2))) newEmitter) [] [] [] []),
         (''c2'', Pack ''c2'' (on ''e'' (plainListener (\<lambda>a. Returns (Num 3))) newEmitter) [] [] [] [])]
        [] [])))
     = [\<lparr>ref = 0, listener = plainListener (\<lambda>a. Returns Undefined), once = False\<rparr>,
        \<lparr>ref = 0, listener = plainListener (\<lambda>a. Returns (Num 2)), once = False\<rparr>]
   \<and> \<not> givesResult [] \<lparr>ref = 0, listener = plainListener (\<lambda>a. Returns Undefined), once = False\<rparr>
   \<and> givesResult [] \<lparr>ref = 0, listener = plainListener (\<lambda>a. Returns (Num 2)), once = False\<rparr>"
proof -
  let ?p = "Pack ''root'' (on ''e'' (plainListener (\<lambda>a. Returns Undefined)) newEmitter) []
        [(''c1'', Pack ''c1'' (on ''e'' (plainListener (\<lambda>a. Returns (Num 2))) newEmitter) [] [] [] []),
         (''c2'', Pack ''c2'' (on ''e'' (plainListener (\<lambda>a. Returns (Num 3))) newEmitter) [] [] [] [])]
        [] []"
  have all: "treeListenerEntries ''e'' ?p
      = [\<lparr>ref = 0, listener = plainListener (\<lambda>a. Returns Undefined), once = False\<rparr>,
         \<lparr>ref = 0, listener = plainListener (\<lambda>a. Returns (Num 2)), once = False\<rparr>,
         \<lparr>ref = 0, listener = plainListener (\<lambda>a. Returns (Num 3)), once = False\<rparr>]"
    by (simp add: treeListenerEntries_def getListenerEntries_def on_def addListenerInternal_def
        newEmitter_def Let_def)
  have g1: "\<not> givesResult [] \<lparr>ref = 0, listener = plainListener (\<lambda>a. Returns Undefined), once = False\<rparr>"
    by (simp add: givesResult_def)
  have g2: "givesResult [] \<lparr>ref = 0, listener = plainListener (\<lambda>a. Returns (Num 2)), once = False\<rparr>"
    by (simp add: givesResult_def)
  from emitEventUntilResultSync_first_result [of "''e''" "[]" ?p]
  have "fst (emitEventUntilResultSync ''e'' [] ?p) = firstResult [] (treeListenerEntries ''e'' ?p)"
    and "fst (snd (emitEventUntilResultSync ''e'' [] ?p))
       = calledUntilResult [] (treeListenerEntries ''e'' ?p)"
    by blast+
  then show ?thesis using g1 g2 unfolding all by (simp add: returned_def)
qed

text \<open>
  C4 as stated fails: a listener of the root returns a promise, which is a defined
  value, yet the scan goes on, calls the child's listener and returns the child's result.
\<close>

theorem emitEventUntilResultSync_first_defined_counterexample:
  "returned [] \<lparr>ref = 0, listener = plainListener (\<lambda>a. Returns (PromiseResolved (Num 1))), once = False\<rparr>
     \<noteq> Undefined
   \<and> fst (emitEventUntilResultSync ''e'' []
       (Pack ''root'' (on ''e'' (plainListener (\<lambda>a. Returns (PromiseResolved (Num 1)))) newEmitter) []
          [(''child'', Pack ''child'' (on ''e'' (plainListener (\<lambda>a. Returns (Num 2))) newEmitter) [] [] [] [])]
          [] [])) = Num 2
   \<and> fst (snd (emitEventUntilResultSync ''e'' []
       (Pack ''root'' (on ''e'' (plainListener (\<lambda>a. Returns (PromiseResolved (Num 1)))) newEmitter) []
          [(''child'', Pack ''child'' (on ''e'' (plainListener (\<lambda>a. Returns (Num 2))) newEmitter) [] [] [] [])]
          [] [])))
     = [\<lparr>ref = 0, listener = plainListener (\<lambda>a. Returns (PromiseResolved (Num 1))), once = False\<rparr>,
        \<lparr>ref = 0, listener = plainListener (\<lambda>a. Returns (Num 2)), once = False\<rparr>]"
  by (simp add: returned_def emitUntilResult_def getListenerEntries_def on_def
      addListenerInternal_def newEmitter_def Let_def noEmission_def called_def pushIfOnce_def
      removeOnceListeners_def)

section \<open>Registration\<close>

lemma emitEvent_interactions: "interactions (snd (emitEvent event args p)) = interactions p"
  by (cases p) (simp split: prod.splits)

lemma storeInteraction_interactions:
  "interactions (storeInteraction entry typeName p)
     = AList.update (interactionId entry) entry (interactions p)"
  by (simp add: storeInteraction_def emitEvent_interactions setInteractions_def
        del: emitEvent.simps)

lemma storeInteraction_has:
  "map_of (interactions (storeInteraction entry typeName p)) (interactionId entry) = Some entry"
  by (simp add: storeInteraction_interactions update_conv')

lemma isSlashCommandValid_empty:
  "isSlashCommandValid cfg [] = Some CommandNameNoCombinationsError"
  by (simp add: isSlashCommandValid_def)

lemma isSlashCommandValid_too_long:
  assumes "\<exists>c\<in>set combinations. length (splitOn CHR '' '' c) > 3
             \<or> (\<exists>w\<in>set (splitOn CHR '' '' c). length w > 32)"
  shows "isSlashCommandValid cfg combinations = Some CommandNameExceededMaxLengthError"
proof -
  from assms have ne: "combinations \<noteq> []" by auto
  from assms have "list_ex (\<lambda>name. length name > 3 \<or> list_ex (\<lambda>word. length word > 32) name)
      (map (splitOn CHR '' '') combinations)"
    by (auto simp: list_ex_iff)
  with ne show ?thesis by (simp add: isSlashCommandValid_def Let_def)
qed

text \<open>
  C5 (as amended). For a slash-command registration whose id is not yet present in the
  container: if the expansion of the name is empty, registration throws
  \<open>CommandNameNoCombinationsError\<close>; if it contains a combination of more than 3
  space-separated words or with a word of more than 32 characters, registration throws
  \<open>CommandNameExceededMaxLengthError\<close>; in both cases the container is left as it was and
  the command is not among its interactions.
\<close>

theorem slashCommand_validation_errors:
  assumes fresh: "map_of (interactions p) (cfg_id cfg) = None"
  shows "(generateCombinations (cfg_name cfg) = [] \<longrightarrow>
            slashCommand generateCombinations cfg p = (Some CommandNameNoCombinationsError, p))
       \<and> ((\<exists>c\<in>set (generateCombinations (cfg_name cfg)).
              length (splitOn CHR '' '' c) > 3 \<or> (\<exists>w\<in>set (splitOn CHR '' '' c). length w > 32)) \<longrightarrow>
            slashCommand generateCombinations cfg p = (Some CommandNameExceededMaxLengthError, p))
       \<and> (fst (slashCommand generateCombinations cfg p) \<noteq> None \<longrightarrow>
            map_of (interactions (snd (slashCommand generateCombinations cfg p))) (cfg_id cfg) = None)"
proof (intro conjI impI)
  assume "generateCombinations (cfg_name cfg) = []"
  then show "slashCommand generateCombinations cfg p = (Some CommandNameNoCombinationsError, p)"
    using fresh by (simp add: slashCommand_def isSlashCommandValid_empty)
next
  assume "\<exists>c\<in>set (generateCombinations (cfg_name cfg)).
              length (splitOn CHR '' '' c) > 3 \<or> (\<exists>w\<in>set (splitOn CHR '' '' c). length w > 32)"
  from isSlashCommandValid_too_long [OF this, of cfg]
  show "slashCommand generateCombinations cfg p = (Some CommandNameExceededMaxLengthError, p)"
    using fresh by (simp add: slashCommand_def)
next
  assume "fst (slashCommand generateCombinations cfg p) \<noteq> None"
  then have "snd (slashCommand generateCombinations cfg p) = p"
    using fresh by (auto simp: slashCommand_def Let_def split: option.splits)
  then show "map_of (interactions (snd (slashCommand generateCombinations cfg p))) (cfg_id cfg) = None"
    using fresh by simp
qed

theorem slashCommand_validation_errors_witness:
  "map_of (interactions (newPack ''pack'')) ''cmd'' = None
   \<and> slashCommand (\<lambda>n. []) \<lparr>cfg_id = ''cmd'', cfg_name = ''()'', cfg_options = None, cfg_handle = (\<lambda>c. Returns Undefined)\<rparr>
        (newPack ''pack'') = (Some CommandNameNoCombinationsError, newPack ''pack'')
   \<and> length (splitOn CHR '' '' ''a b c d'') > 3
   \<and> slashCommand (\<lambda>n. [n]) \<lparr>cfg_id = ''cmd'', cfg_name = ''a b c d'', cfg_options = None, cfg_handle = (\<lambda>c. Returns Undefined)\<rparr>
        (newPack ''pack'') = (Some CommandNameExceededMaxLengthError, newPack ''pack'')
   \<and> (\<exists>w\<in>set (splitOn CHR '' '' (''a '' @ replicate 33 CHR ''x'')). length w > 32)
   \<and> slashCommand (\<lambda>n. [n])
        \<lparr>cfg_id = ''cmd'', cfg_name = ''a '' @ replicate 33 CHR ''x'', cfg_options = None, cfg_handle = (\<lambda>c. Returns Undefined)\<rparr>
        (newPack ''pack'') = (Some CommandNameExceededMaxLengthError, newPack ''pack'')
   \<and> map_of (interactions (snd (slashCommand (\<lambda>n. [n])
        \<lparr>cfg_id = ''cmd'', cfg_name = ''a b c d'', cfg_options = None, cfg_handle = (\<lambda>c. Returns Undefined)\<rparr>
        (newPack ''pack'')))) ''cmd'' = None"
proof -
  let ?p = "newPack ''pack''"
  let ?h = "\<lambda>c::jsvalue. Returns Undefined"
  have fresh: "map_of (interactions ?p) ''cmd'' = None" by (simp add: newPack_def)
  have four: "length (splitOn CHR '' '' ''a b c d'') > 3" by simp
  have long: "\<exists>w\<in>set (splitOn CHR '' '' (''a '' @ replicate 33 CHR ''x'')). length w > 32"
    by (simp add: eval_nat_numeral)
  have fresh1: "map_of (interactions ?p) (cfg_id \<lparr>cfg_id = ''cmd'', cfg_name = ''()'', cfg_options = None, cfg_handle = ?h\<rparr>) = None"
    using fresh by simp
  have fresh2: "map_of (interactions ?p) (cfg_id \<lparr>cfg_id = ''cmd'', cfg_name = ''a b c d'', cfg_options = None, cfg_handle = ?h\<rparr>) = None"
    using fresh by simp
  have fresh3: "map_of (interactions ?p)
      (cfg_id \<lparr>cfg_id = ''cmd'', cfg_name = ''a '' @ replicate 33 CHR ''x'', cfg_options = None, cfg_handle = ?h\<rparr>) = None"
    using fresh by simp
  have r1: "slashCommand (\<lambda>n. []) \<lparr>cfg_id = ''cmd'', cfg_name = ''()'', cfg_options = None, cfg_handle = ?h\<rparr> ?p
      = (Some CommandNameNoCombinationsError, ?p)"
    using slashCommand_validation_errors [OF fresh1, of "\<lambda>n. []"] by simp
  have r2: "slashCommand (\<lambda>n. [n]) \<lparr>cfg_id = ''cmd'', cfg_name = ''a b c d'', cfg_options = None, cfg_handle = ?h\<rparr> ?p
      = (Some CommandNameExceededMaxLengthError, ?p)"
    using slashCommand_validation_errors [OF fresh2, of "\<lambda>n. [n]"] four by simp
  have r3: "slashCommand (\<lambda>n. [n])
        \<lparr>cfg_id = ''cmd'', cfg_name = ''a '' @ replicate 33 CHR ''x'', cfg_options = None, cfg_handle = ?h\<rparr> ?p
      = (Some CommandNameExceededMaxLengthError, ?p)"
    using slashCommand_validation_errors [OF fresh3, of "\<lambda>n. [n]"] long by simp
  have r4: "map_of (interactions (snd (slashCommand (\<lambda>n. [n])
        \<lparr>cfg_id = ''cmd'', cfg_name = ''a b c d'', cfg_options = None, cfg_handle = ?h\<rparr> ?p))) ''cmd'' = None"
    using r2 fresh by simp
  from fresh r1 four r2 long r3 r4 show ?thesis by blast
qed

text \<open>
  C5 as stated fails when the id is already registered: the duplicate check comes first,
  so a name with a four-word combination is rejected with the duplicate-id error, not
  with the length-validation error. (A name without group syntax expands to itself.)
\<close>

theorem slashCommand_length_error_counterexample:
  "length (splitOn CHR '' '' ''a b c d'') > 3
   \<and> slashCommand (\<lambda>n. [n]) \<lparr>cfg_id = ''cmd'', cfg_name = ''a b c d'', cfg_options = None, cfg_handle = (\<lambda>c. Returns Undefined)\<rparr>
        (snd (slashCommand (\<lambda>n. [n])
           \<lparr>cfg_id = ''cmd'', cfg_name = ''ping'', cfg_options = None, cfg_handle = (\<lambda>c. Returns Undefined)\<rparr>
           (newPack ''pack'')))
     = (Some (AlreadyExists ''cmd''),
        snd (slashCommand (\<lambda>n. [n])
           \<lparr>cfg_id = ''cmd'', cfg_name = ''ping'', cfg_options = None, cfg_handle = (\<lambda>c. Returns Undefined)\<rparr>
           (newPack ''pack'')))
   \<and> fst (slashCommand (\<lambda>n. [n]) \<lparr>cfg_id = ''cmd'', cfg_name = ''a b c d'', cfg_options = None, cfg_handle = (\<lambda>c. Returns Undefined)\<rparr>
        (snd (slashCommand (\<lambda>n. [n])
           \<lparr>cfg_id = ''cmd'', cfg_name = ''ping'', cfg_options = None, cfg_handle = (\<lambda>c. Returns Undefined)\<rparr>
           (newPack ''pack''))))
     \<noteq> Some CommandNameExceededMaxLengthError"
proof -
  let ?h = "\<lambda>c::jsvalue. Returns Undefined"
  let ?first = "\<lparr>cfg_id = ''cmd'', cfg_name = ''ping'', cfg_options = None, cfg_handle = ?h\<rparr>"
  let ?p = "snd (slashCommand (\<lambda>n. [n]) ?first (newPack ''pack''))"
  have valid: "isSlashCommandValid ?first [''ping''] = None"
    by (simp add: isSlashCommandValid_def)
  have "?p = storeInteraction \<lparr>interactionId = ''cmd'', itype = Some ChatInput, name = Some ''ping'',
        nameCombinations = Some [''ping''], options = None, handle = ?h\<rparr> ''ChatInput'' (newPack ''pack'')"
    using valid by (simp add: slashCommand_def newPack_def)
  then have has: "map_of (interactions ?p) ''cmd'' \<noteq> None"
    using storeInteraction_has [of "\<lparr>interactionId = ''cmd'', itype = Some ChatInput, name = Some ''ping'',
        nameCombinations = Some [''ping''], options = None, handle = ?h\<rparr>" "''ChatInput''" "newPack ''pack''"]
    by simp
  have four: "length (splitOn CHR '' '' ''a b c d'') > 3" by simp
  have "slashCommand (\<lambda>n. [n]) \<lparr>cfg_id = ''cmd'', cfg_name = ''a b c d'', cfg_options = None, cfg_handle = ?h\<rparr> ?p
      = (Some (AlreadyExists ''cmd''), ?p)"
    using has by (simp add: slashCommand_def)
  with four show ?thesis by simp
qed













section \<open>One-shot listeners\<close>

lemma fold_setDelete:
  "fold setDelete rs ls = filter (\<lambda>x. ref x \<notin> ref ` set rs) ls"
  by (induction rs arbitrary: ls) (auto simp: setDelete_def intro: filter_cong)

lemma getListenerEntries_removeOnceListeners:
  "getListenerEntries event (removeOnceListeners event rs em)
     = filter (\<lambda>x. ref x \<notin> ref ` set rs) (getListenerEntries event em)"
proof (cases "rs = []")
  case True
  then show ?thesis by (simp add: removeOnceListeners_def)
next
  case False
  show ?thesis
  proof (cases "map_of (eventListeners em) event")
    case None
    then show ?thesis using False by (simp add: removeOnceListeners_def getListenerEntries_def)
  next
    case (Some ls)
    then show ?thesis using False
      by (simp add: removeOnceListeners_def getListenerEntries_def Let_def fold_setDelete
          update_conv' delete_conv')
  qed
qed

lemma getListenerEntries_lastResults [simp]:
  "getListenerEntries event (em\<lparr>lastResults := r\<rparr>) = getListenerEntries event em"
  by (simp add: getListenerEntries_def)

lemma emitParallelLoop_invoked:
  "invoked (emitParallelLoop args es acc) = invoked acc @ es"
  by (induction es arbitrary: acc)
     (auto simp: called_def pushResult_def pushIfOnce_def split: outcome.splits)

lemma emitParallelLoop_listenersToRemove:
  "listenersToRemove (emitParallelLoop args es acc) = listenersToRemove acc @ filter once es"
  by (induction es arbitrary: acc)
     (auto simp: called_def pushResult_def pushIfOnce_def split: outcome.splits)

lemma tracked_step: "tracked acc \<Longrightarrow> tracked (pushIfOnce entry (called entry acc))"
  by (simp add: tracked_def pushIfOnce_def called_def)

lemma tracked_pushResult [simp]: "tracked (pushResult v acc) = tracked acc"
  by (simp add: tracked_def pushResult_def)

lemma tracked_touched [simp]: "tracked (touched entry args acc) = tracked acc"
  by (simp add: tracked_def touched_def)

lemma called_touched: "called entry (touched e args acc) = touched e args (called entry acc)"
  by (simp add: called_def touched_def)

lemma pushIfOnce_touched:
  "pushIfOnce entry (touched e args acc) = touched e args (pushIfOnce entry acc)"
  by (simp add: pushIfOnce_def touched_def)

lemma pushIfOnce_pushResult:
  "pushIfOnce entry (pushResult v acc) = pushResult v (pushIfOnce entry acc)"
  by (simp add: pushIfOnce_def pushResult_def)

lemma tracked_noEmission: "tracked noEmission"
  by (simp add: tracked_def noEmission_def)

lemma emitLoop_tracked: "tracked acc \<Longrightarrow> tracked (emitLoop args es acc)"
  by (induction es arbitrary: acc)
     (auto simp: pushIfOnce_pushResult pushIfOnce_touched tracked_step split: outcome.splits)

lemma emitParallelLoop_tracked: "tracked acc \<Longrightarrow> tracked (emitParallelLoop args es acc)"
  by (induction es arbitrary: acc) (auto simp: tracked_step split: outcome.splits)

lemma emitAsyncLoop_tracked:
  "tracked acc \<Longrightarrow> snd (emitAsyncLoop args es None acc)
     \<and> tracked (fst (emitAsyncLoop args es None acc))"
  by (induction es arbitrary: acc)
     (auto simp: pushIfOnce_pushResult tracked_step Let_def split: outcome.splits)

lemma emitUntilResultLoop_tracked:
  "tracked acc \<Longrightarrow> tracked (snd (emitUntilResultLoop args es acc))"
  by (induction es arbitrary: acc) (auto simp: tracked_step Let_def split: outcome.splits)

lemma emitUntilResultAsyncLoop_tracked:
  "tracked acc \<Longrightarrow> tracked (snd (emitUntilResultAsyncLoop args es acc))"
  by (induction es arbitrary: acc) (auto simp: tracked_step Let_def split: outcome.splits)

lemma emit_removes_once:
  "getListenerEntries event (snd (emit event args em))
     = filter (\<lambda>x. ref x \<notin> ref ` set (filter once (invoked (fst (emit event args em)))))
         (getListenerEntries event em)"
  using emitLoop_tracked [OF tracked_noEmission, of args "getListenerEntries event em"]
  by (simp add: emit_def Let_def getListenerEntries_removeOnceListeners tracked_def)

lemma emitParallel_removes_once:
  "getListenerEntries event (snd (emitParallel event args em))
     = filter (\<lambda>x. ref x \<notin> ref ` set (filter once (invoked (fst (emitParallel event args em)))))
         (getListenerEntries event em)"
  using emitParallelLoop_tracked [OF tracked_noEmission, of args "getListenerEntries event em"]
  by (simp add: emitParallel_def Let_def getListenerEntries_removeOnceListeners tracked_def)

lemma emitAsync_drained_removes_once:
  "getListenerEntries event (snd (emitAsync event args None em))
     = filter (\<lambda>x. ref x \<notin> ref ` set (filter once (invoked (fst (emitAsync event args None em)))))
         (getListenerEntries event em)"
proof -
  obtain run fin where l: "emitAsyncLoop args (getListenerEntries event em) None noEmission = (run, fin)"
    by (cases "emitAsyncLoop args (getListenerEntries event em) None noEmission")
  from emitAsyncLoop_tracked [OF tracked_noEmission, of args "getListenerEntries event em"] l
  have "fin" and "tracked run" by simp_all
  then show ?thesis using l
    by (simp add: emitAsync_def getListenerEntries_removeOnceListeners tracked_def)
qed

lemma emitUntilResult_removes_once:
  "getListenerEntries event (snd (snd (emitUntilResult event args em)))
     = filter (\<lambda>x. ref x \<notin> ref ` set (filter once (invoked (fst (snd (emitUntilResult event args em))))))
         (getListenerEntries event em)"
proof -
  obtain r run where l: "emitUntilResultLoop args (getListenerEntries event em) noEmission = (r, run)"
    by (cases "emitUntilResultLoop args (getListenerEntries event em) noEmission")
  from emitUntilResultLoop_tracked [OF tracked_noEmission, of args "getListenerEntries event em"] l
  have "tracked run" by simp
  then show ?thesis using l
    by (cases r) (simp_all add: emitUntilResult_def getListenerEntries_removeOnceListeners tracked_def)
qed

lemma emitUntilResultAsync_removes_once:
  "getListenerEntries event (snd (snd (emitUntilResultAsync event args em)))
     = filter (\<lambda>x. ref x \<notin> ref ` set (filter once (invoked (fst (snd (emitUntilResultAsync event args em))))))
         (getListenerEntries event em)"
proof -
  obtain r run where l: "emitUntilResultAsyncLoop args (getListenerEntries event em) noEmission = (r, run)"
    by (cases "emitUntilResultAsyncLoop args (getListenerEntries event em) noEmission")
  from emitUntilResultAsyncLoop_tracked [OF tracked_noEmission, of args "getListenerEntries event em"] l
  have "tracked run" by simp
  then show ?thesis using l
    by (cases r) (simp_all add: emitUntilResultAsync_def getListenerEntries_removeOnceListeners tracked_def)
qed

text \<open>
  C9 at the failing input. A one-shot listener is registered and \<open>emitAsync\<close> is consumed
  by a loop that leaves on the first value. The listener was called, but the generator
  never reaches \<open>removeOnceListeners\<close>: the listener is still registered and is called
  again by the next \<open>emit\<close>. Consumed to the end, \<open>emitAsync\<close> removes it, as \<open>emit\<close>
  does.
\<close>

theorem emitAsync_abandoned_keeps_once_listener:
  "invoked (fst (emitAsync ''e'' [] (Some 1) (once' ''e'' (plainListener (\<lambda>a. Returns (Num 1))) newEmitter)))
     = [\<lparr>ref = 0, listener = plainListener (\<lambda>a. Returns (Num 1)), once = True\<rparr>]
   \<and> getListenerEntries ''e''
       (snd (emitAsync ''e'' [] (Some 1) (once' ''e'' (plainListener (\<lambda>a. Returns (Num 1))) newEmitter)))
     = [\<lparr>ref = 0, listener = plainListener (\<lambda>a. Returns (Num 1)), once = True\<rparr>]
   \<and> invoked (fst (emit ''e'' []
       (snd (emitAsync ''e'' [] (Some 1) (once' ''e'' (plainListener (\<lambda>a. Returns (Num 1))) newEmitter)))))
     = [\<lparr>ref = 0, listener = plainListener (\<lambda>a. Returns (Num 1)), once = True\<rparr>]
   \<and> getListenerEntries ''e''
       (snd (emitAsync ''e'' [] None (once' ''e'' (plainListener (\<lambda>a. Returns (Num 1))) newEmitter))) = []
   \<and> getListenerEntries ''e''
       (snd (emit ''e'' [] (once' ''e'' (plainListener (\<lambda>a. Returns (Num 1))) newEmitter))) = []"
  by (simp add: emitAsync_def emit_def once'_def addListenerInternal_def newEmitter_def Let_def
      getListenerEntries_def noEmission_def awaitListener_def called_def touched_def
      pushResult_def pushIfOnce_def removeOnceListeners_def setDelete_def)

section \<open>Custom data round trip\<close>

lemma splitOn_not_Nil: "splitOn sep xs \<noteq> []"
  by (induction xs) (auto split: list.splits)

lemma splitOn_no_sep: "sep \<notin> set xs \<Longrightarrow> splitOn sep xs = [xs]"
  by (induction xs) auto

lemma splitOn_append_sep:
  "sep \<notin> set xs \<Longrightarrow> splitOn sep (xs @ sep # ys) = xs # splitOn sep ys"
  by (induction xs) auto

lemma splitOn_joinWith:
  "xs \<noteq> [] \<Longrightarrow> \<forall>x\<in>set xs. sep \<notin> set x \<Longrightarrow> splitOn sep (joinWith sep xs) = xs"
proof (induction sep xs rule: joinWith.induct)
  case (1 sep)
  then show ?case by simp
next
  case (2 sep x)
  then show ?case by (simp add: splitOn_no_sep)
next
  case (3 sep x y zs)
  then show ?case by (simp add: splitOn_append_sep)
qed

lemma indicator_not_splitter: "CUSTOM_DATA_NUMBER_INDICATOR \<noteq> CUSTOM_DATA_SPLITTER"
  by (simp add: CUSTOM_DATA_NUMBER_INDICATOR_def CUSTOM_DATA_SPLITTER_def)

lemma encodeItem_no_splitter:
  "roundTrips toString toNumber item \<Longrightarrow>
     CUSTOM_DATA_SPLITTER \<notin> set (encodeItem toString item)"
  using indicator_not_splitter
  by (cases item) (auto simp: roundTrips_def encodeItem_def)

lemma decodePart_encodeItem:
  "roundTrips toString toNumber item \<Longrightarrow>
     decodePart toNumber (encodeItem toString item) = item"
proof (cases item)
  case (CString s)
  assume "roundTrips toString toNumber item"
  with CString show ?thesis
    by (cases s) (auto simp: roundTrips_def encodeItem_def decodePart_def)
next
  case (CNumber n)
  assume "roundTrips toString toNumber item"
  with CNumber show ?thesis
    by (simp add: roundTrips_def encodeItem_def decodePart_def)
qed

lemma parse_encode:
  assumes i: "CUSTOM_DATA_SPLITTER \<notin> set baseId"
    and d: "\<forall>item\<in>set d. roundTrips toString toNumber item"
  shows "parseCustomDataSync toNumber (encodeCustomDataSync toString baseId (Some d) None) None
           = (baseId, d)"
proof (cases "d = []")
  case True
  then show ?thesis using i
    by (simp add: encodeCustomDataSync_def parseCustomDataSync_def splitOn_no_sep)
next
  case False
  let ?parts = "map (encodeItem toString) d"
  have ne: "?parts \<noteq> []" using False by simp
  have free: "\<forall>x\<in>set ?parts. CUSTOM_DATA_SPLITTER \<notin> set x"
    using d encodeItem_no_splitter [of toString toNumber] by auto
  have enc: "encodeCustomDataSync toString baseId (Some d) None
      = baseId @ CUSTOM_DATA_SPLITTER # joinWith CUSTOM_DATA_SPLITTER ?parts"
    using False by (simp add: encodeCustomDataSync_def Let_def)
  have sp: "splitOn CUSTOM_DATA_SPLITTER (encodeCustomDataSync toString baseId (Some d) None)
      = baseId # ?parts"
    unfolding enc using splitOn_append_sep [OF i] splitOn_joinWith [OF ne free] by simp
  have dec: "map (decodePart toNumber) ?parts = d"
    using d decodePart_encodeItem [of toString toNumber] by (simp add: map_idI)
  show ?thesis using sp False dec by (simp add: parseCustomDataSync_def Let_def)
qed

lemma parse_plain_id:
  "CUSTOM_DATA_SPLITTER \<notin> set ident \<Longrightarrow>
     parseCustomDataSync toNumber ident eventEmitter = (ident, [])"
  by (simp add: parseCustomDataSync_def splitOn_no_sep)

text \<open>
  C2 (as amended). For every id without the separator character and every list of
  strings and numbers in which no string contains the separator or starts with the
  number indicator (and every number prints and reads back as itself),
  \<open>parseCustomDataSync (encodeCustomDataSync id data)\<close> is \<open>{id, data}\<close>; and decoding an
  identifier without the separator returns it unchanged with an empty data list.
\<close>

theorem customData_round_trip:
  assumes "CUSTOM_DATA_SPLITTER \<notin> set baseId"
    and "\<forall>item\<in>set d. roundTrips toString toNumber item"
  shows "parseCustomDataSync toNumber (encodeCustomDataSync toString baseId (Some d) None) None
           = (baseId, d)
       \<and> (CUSTOM_DATA_SPLITTER \<notin> set ident \<longrightarrow>
            parseCustomDataSync toNumber ident eventEmitter = (ident, []))"
  using parse_encode [OF assms] parse_plain_id [of ident toNumber eventEmitter] by blast

theorem customData_round_trip_witness:
  "CUSTOM_DATA_SPLITTER \<notin> set [0x62, 0x74, 0x6E]
   \<and> roundTrips numberToString stringToNumber (CString [0x61])
   \<and> roundTrips numberToString stringToNumber (CNumber (Finite 3))
   \<and> parseCustomDataSync stringToNumber
        (encodeCustomDataSync numberToString [0x62, 0x74, 0x6E]
           (Some [CString [0x61], CNumber (Finite 3)]) None) None
       = ([0x62, 0x74, 0x6E], [CString [0x61], CNumber (Finite 3)])
   \<and> parseCustomDataSync stringToNumber [0x62, 0x74, 0x6E] None = ([0x62, 0x74, 0x6E], [])"
proof -
  have a: "CUSTOM_DATA_SPLITTER \<notin> set [0x62, 0x74, 0x6E]"
    by (simp add: CUSTOM_DATA_SPLITTER_def)
  have b1: "roundTrips numberToString stringToNumber (CString [0x61])"
    by (simp add: roundTrips_def CUSTOM_DATA_SPLITTER_def CUSTOM_DATA_NUMBER_INDICATOR_def)
  have b2: "roundTrips numberToString stringToNumber (CNumber (Finite 3))"
    by (simp add: roundTrips_def CUSTOM_DATA_SPLITTER_def numberToString_def stringToNumber_def)
  have b: "\<forall>item\<in>set [CString [0x61], CNumber (Finite 3)].
         roundTrips numberToString stringToNumber item"
    using b1 b2 by simp
  from customData_round_trip [OF a b, of "[0x62, 0x74, 0x6E]" None] a b1 b2
  show ?thesis by blast
qed

text \<open>
  C2 as stated fails for a string value that contains the separator: \<open>["a\<dots>b"]\<close> with
  the separator between \<open>a\<close> and \<open>b\<close> decodes to the two strings \<open>["a", "b"]\<close>. Likewise a
  string that starts with the number indicator decodes to a number.
\<close>

theorem customData_round_trip_counterexample:
  "CUSTOM_DATA_SPLITTER \<notin> set [0x62, 0x74, 0x6E]
   \<and> parseCustomDataSync stringToNumber
        (encodeCustomDataSync numberToString [0x62, 0x74, 0x6E]
           (Some [CString [0x61, 0x4C9C, 0x62]]) None) None
       = ([0x62, 0x74, 0x6E], [CString [0x61], CString [0x62]])
   \<and> parseCustomDataSync stringToNumber
        (encodeCustomDataSync numberToString [0x62, 0x74, 0x6E]
           (Some [CString [0x61, 0x4C9C, 0x62]]) None) None
       \<noteq> ([0x62, 0x74, 0x6E], [CString [0x61, 0x4C9C, 0x62]])
   \<and> parseCustomDataSync stringToNumber
        (encodeCustomDataSync numberToString [0x62, 0x74, 0x6E]
           (Some [CString [0x397B, 0x37]]) None) None
       = ([0x62, 0x74, 0x6E], [CNumber (Finite 7)])"
  by (simp add: parseCustomDataSync_def encodeCustomDataSync_def encodeItem_def decodePart_def
      CUSTOM_DATA_SPLITTER_def CUSTOM_DATA_NUMBER_INDICATOR_def stringToNumber_def Let_def)

section \<open>Fallback to the default language\<close>


















section \<open>The flattened interaction cache\<close>

lemma setAll_append: "setAll (xs @ ys) cached = setAll ys (setAll xs cached)"
  by (simp add: setAll_def)

lemma setAll_Nil: "setAll [] cached = cached"
  by (simp add: setAll_def)

lemma cacheAll_setAll:
  "cacheAll p items cached
     = setAll (map (\<lambda>item. (fst item, \<lparr>path = p, data = snd item\<rparr>)) items) cached"
  by (simp add: cacheAll_def setAll_def fold_map comp_def)

lemma map_of_setAll:
  "map_of (setAll entries cached) k
     = (case map_of (rev entries) k of None \<Rightarrow> map_of cached k | Some v \<Rightarrow> Some v)"
proof (induction entries arbitrary: cached)
  case Nil
  show ?case by (simp add: setAll_def)
next
  case (Cons e entries)
  have "setAll (e # entries) cached = setAll entries (AList.update (fst e) (snd e) cached)"
    by (simp add: setAll_def)
  then show ?case
    using Cons [of "AList.update (fst e) (snd e) cached"]
    by (cases e) (auto simp: map_add_def update_conv' split: option.splits)
qed

lemma distinct_setAll:
  "distinct (map fst cached) \<Longrightarrow> distinct (map fst (setAll entries cached))"
  unfolding setAll_def
  by (induction entries arbitrary: cached) (simp_all add: distinct_update)

lemma pushCache_interactions:
  "cache_interactions (pushCache pk p c) = setAll (interactionEntries pk p) (cache_interactions c)"
  "cache_interactions (pushCacheSubPacks parentId p subs c)
     = setAll (interactionEntriesSubPacks parentId p subs) (cache_interactions c)"
proof (induction pk p c and parentId p subs c rule: pushCache_pushCacheSubPacks.induct)
  case (1 i em ls subs ints insp p c)
  then show ?case by (simp add: cacheAll_setAll setAll_append)
next
  case (2 parentId p c)
  show ?case by (simp add: setAll_Nil)
next
  case (3 parentId p key subPack rest c)
  then show ?case by (simp add: setAll_append)
qed

lemma refresh_cache_interactions:
  "cache_interactions (cache (refresh t)) = setAll (interactionEntries (root_pack t) []) []"
  by (simp add: refresh_def Let_def pushCache_interactions(1) emptyCache_def)

lemma findCommand_Some:
  "findCommand full cached = Some (key, i) \<Longrightarrow>
     \<exists>cd. (key, cd) \<in> set cached \<and> data cd = i \<and> matchesChatInput full i"
  by (induction cached) (auto split: if_splits)

lemma findInteraction_Some:
  "findInteraction matches cached = Some (key, i) \<Longrightarrow>
     \<exists>cd. (key, cd) \<in> set cached \<and> data cd = i \<and> matches i"
  by (induction cached) (auto split: if_splits)

lemma findAutoComplete_Some:
  "findAutoComplete full focusedName cached = Some (key, i, f) \<Longrightarrow>
     \<exists>cd. (key, cd) \<in> set cached \<and> data cd = i \<and> autoCompleteFor full focusedName i = Some f"
  by (induction cached) (auto split: option.splits)

lemma scanInspectors_registrationOf:
  "invocation \<in> set (scanInspectors full ctx insps) \<Longrightarrow> registrationOf invocation = None"
  by (induction insps) (auto split: prod.splits if_splits)

lemma scanInspectorsById_registrationOf:
  "invocation \<in> set (scanInspectorsById ty ident ctx insps) \<Longrightarrow> registrationOf invocation = None"
  by (induction insps) (auto split: prod.splits if_splits)

lemma callHandle_invoked:
  "handlersInvoked (callHandle key interactionData ctx) = [CommandHandle key interactionData]"
  by (simp add: callHandle_def split: outcome.splits)

lemma handleChatInputCommand_cached:
  assumes "invocation \<in> set (handlersInvoked (handleChatInputCommand t interaction ctx))"
    and "registrationOf invocation = Some (key, i)"
  shows "\<exists>cd. (key, cd) \<in> set (cache_interactions (cache t)) \<and> data cd = i"
proof (cases "findCommand (fullCommandName interaction) (cache_interactions (cache t))")
  case None
  with assms(1) have "registrationOf invocation = None"
    using scanInspectors_registrationOf by (simp add: handleChatInputCommand_def Let_def)
  with assms(2) show ?thesis by simp
next
  case (Some found)
  obtain key' i' where f: "found = (key', i')" by (cases found)
  with Some assms(1) have "invocation = CommandHandle key' i'"
    by (auto simp: handleChatInputCommand_def Let_def split: outcome.splits)
  with assms(2) have "key' = key" "i' = i" by simp_all
  with Some f findCommand_Some show ?thesis by blast
qed

lemma handleContextMenuCommand_cached:
  assumes "invocation \<in> set (handlersInvoked (handleContextMenuCommand ty emitType t cmdName ctx))"
    and "registrationOf invocation = Some (key, i)"
  shows "\<exists>cd. (key, cd) \<in> set (cache_interactions (cache t)) \<and> data cd = i"
proof (cases "findInteraction (matchesContextMenu ty cmdName) (cache_interactions (cache t))")
  case None
  with assms(1) have "registrationOf invocation = None"
    using scanInspectorsById_registrationOf by (simp add: handleContextMenuCommand_def)
  with assms(2) show ?thesis by simp
next
  case (Some found)
  obtain key' i' where f: "found = (key', i')" by (cases found)
  with Some assms(1) have "invocation = CommandHandle key' i'"
    by (simp add: handleContextMenuCommand_def callHandle_invoked)
  with assms(2) have "key' = key" "i' = i" by simp_all
  with Some f findInteraction_Some show ?thesis by blast
qed

lemma handleComponentInteraction_cached:
  assumes "invocation \<in> set (handlersInvoked
      (handleComponentInteraction ty emitType toNumber decodeListeners wrapper t customId))"
    and "registrationOf invocation = Some (key, i)"
  shows "\<exists>cd. (key, cd) \<in> set (cache_interactions (cache t)) \<and> data cd = i"
proof -
  obtain baseCustomId parsed
    where p: "parseCustomData toNumber customId (Some decodeListeners) = (baseCustomId, parsed)"
    by (cases "parseCustomData toNumber customId (Some decodeListeners)")
  show ?thesis
  proof (cases "findInteraction (matchesComponent ty baseCustomId) (cache_interactions (cache t))")
    case None
    with assms(1) p have "registrationOf invocation = None"
      using scanInspectorsById_registrationOf by (simp add: handleComponentInteraction_def)
    with assms(2) show ?thesis by simp
  next
    case (Some found)
    obtain key' i' where f: "found = (key', i')" by (cases found)
    with Some assms(1) p have "invocation = CommandHandle key' i'"
      by (simp add: handleComponentInteraction_def callHandle_invoked)
    with assms(2) have "key' = key" "i' = i" by simp_all
    with Some f findInteraction_Some show ?thesis by blast
  qed
qed

lemma handleAutocompleteInteraction_cached:
  assumes "invocation \<in> set (handlersInvoked
      (handleAutocompleteInteraction t interaction focusedName autocompleteContext))"
    and "registrationOf invocation = Some (key, i)"
  shows "\<exists>cd. (key, cd) \<in> set (cache_interactions (cache t)) \<and> data cd = i"
proof (cases "findAutoComplete (fullCommandName interaction) focusedName
    (cache_interactions (cache t))")
  case None
  with assms(1) show ?thesis by (simp add: handleAutocompleteInteraction_def)
next
  case (Some found)
  obtain key' i' f where f: "found = (key', i', f)" by (cases found)
  with Some assms(1) have "invocation = AutoCompleteHandle key' i' focusedName"
    by (auto simp: handleAutocompleteInteraction_def split: outcome.splits)
  with assms(2) have "key' = key" "i' = i" by simp_all
  with Some f findAutoComplete_Some show ?thesis by blast
qed

lemma handleInteraction_cached:
  assumes "invocation \<in> set (handlersInvoked
      (handleInteraction toNumber decodeListeners wrapper ctx autocompleteContext t interaction))"
    and "registrationOf invocation = Some (key, i)"
  shows "\<exists>cd. (key, cd) \<in> set (cache_interactions (cache t)) \<and> data cd = i"
proof (cases interaction)
  case (IsAutocomplete x focusedName)
  with assms show ?thesis
    using handleAutocompleteInteraction_cached [of invocation t x focusedName autocompleteContext key i]
    by (simp add: handleInteraction_def)
next
  case (IsChatInputCommand x)
  with assms show ?thesis
    using handleChatInputCommand_cached [of invocation t x ctx key i]
    by (simp add: handleInteraction_def)
next
  case (IsUserContextMenuCommand cmdName)
  with assms show ?thesis
    using handleContextMenuCommand_cached [of invocation User EmitUserContextMenu t cmdName ctx key i]
    by (simp add: handleInteraction_def handleUserContextMenuCommand_def)
next
  case (IsMessageContextMenuCommand cmdName)
  with assms show ?thesis
    using handleContextMenuCommand_cached [of invocation Message EmitMessageContextMenu t cmdName ctx key i]
    by (simp add: handleInteraction_def handleMessageContextMenuCommand_def)
next
  case (IsButton customId)
  with assms show ?thesis
    using handleComponentInteraction_cached
      [of invocation Button EmitButton toNumber decodeListeners wrapper t customId key i]
    by (simp add: handleInteraction_def handleButtonInteraction_def)
next
  case (IsStringSelectMenu customId)
  with assms show ?thesis
    using handleComponentInteraction_cached
      [of invocation StringSelectMenu EmitStringSelectMenu toNumber decodeListeners wrapper t customId key i]
    by (simp add: handleInteraction_def handleStringSelectMenuInteraction_def)
next
  case (IsUserSelectMenu customId)
  with assms show ?thesis
    using handleComponentInteraction_cached
      [of invocation UserSelectMenu EmitUserSelectMenu toNumber decodeListeners wrapper t customId key i]
    by (simp add: handleInteraction_def handleUserSelectMenuInteraction_def)
next
  case (IsRoleSelectMenu customId)
  with assms show ?thesis
    using handleComponentInteraction_cached
      [of invocation RoleSelectMenu EmitRoleSelectMenu toNumber decodeListeners wrapper t customId key i]
    by (simp add: handleInteraction_def handleRoleSelectMenuInteraction_def)
next
  case (IsChannelSelectMenu customId)
  with assms show ?thesis
    using handleComponentInteraction_cached
      [of invocation ChannelSelectMenu EmitChannelSelectMenu toNumber decodeListeners wrapper t customId key i]
    by (simp add: handleInteraction_def handleChannelSelectMenuInteraction_def)
next
  case (IsMentionableSelectMenu customId)
  with assms show ?thesis
    using handleComponentInteraction_cached
      [of invocation MentionableSelectMenu EmitMentionableSelectMenu toNumber decodeListeners wrapper t
          customId key i]
    by (simp add: handleInteraction_def handleMentionableSelectMenuInteraction_def)
next
  case (IsModalSubmit customId)
  with assms show ?thesis
    using handleComponentInteraction_cached
      [of invocation Modal EmitModal toNumber decodeListeners wrapper t customId key i]
    by (simp add: handleInteraction_def handleModalSubmitInteraction_def)
next
  case IsOther
  with assms show ?thesis by (simp add: handleInteraction_def)
qed

text \<open>
  C10. The interaction cache is keyed by the bare id: after \<open>refresh\<close> it holds each id at
  most once, and the entry under an id is the registration that the depth-first walk
  of \<open>pushCache\<close> visits last among those with this id (a pack before its sub-packs,
  sub-packs in collection order), which overwrote the earlier ones. Whatever the kind
  of the inbound interaction (autocomplete, slash command, user or message context
  menu, button, one of the five select menus, modal), a function of a registration that
  \<open>handleInteraction\<close> calls, its handler or the \<open>autoComplete\<close> function of one of its
  options, is that of the surviving entry under its id.
\<close>

theorem refresh_cache_last_visited_wins:
  "distinct (map fst (cache_interactions (cache (refresh t))))
   \<and> map_of (cache_interactions (cache (refresh t))) k
       = map_of (rev (interactionEntries (root_pack t) [])) k
   \<and> (invocation \<in> set (handlersInvoked
          (handleInteraction toNumber decodeListeners wrapper ctx autocompleteContext
             (refresh t) interaction))
        \<and> registrationOf invocation = Some (key, i)
        \<longrightarrow> (\<exists>cd. map_of (rev (interactionEntries (root_pack t) [])) key = Some cd \<and> data cd = i))"
proof -
  let ?c = "cache_interactions (cache (refresh t))"
  have d: "distinct (map fst ?c)"
    by (simp add: refresh_cache_interactions distinct_setAll)
  have m: "map_of ?c k' = map_of (rev (interactionEntries (root_pack t) [])) k'" for k'
    by (simp add: refresh_cache_interactions map_of_setAll split: option.splits)
  have r: "\<exists>cd. map_of (rev (interactionEntries (root_pack t) [])) key = Some cd \<and> data cd = i"
    if a: "invocation \<in> set (handlersInvoked
          (handleInteraction toNumber decodeListeners wrapper ctx autocompleteContext
             (refresh t) interaction))"
      and b: "registrationOf invocation = Some (key, i)"
  proof -
    from handleInteraction_cached [OF a b]
    obtain cd where "(key, cd) \<in> set ?c" and "data cd = i"
      by blast
    with d have "map_of ?c key = Some cd" by simp
    with m [of key] have "map_of (rev (interactionEntries (root_pack t) [])) key = Some cd"
      by simp
    with \<open>data cd = i\<close> show ?thesis by blast
  qed
  from d m [of k] r show ?thesis by blast
qed

theorem refresh_cache_last_visited_wins_witness:
  "fst (slashCommand (\<lambda>n. [n])
          \<lparr>cfg_id = ''x'', cfg_name = ''ping'', cfg_options = None,
           cfg_handle = (\<lambda>c. Returns (Num 1))\<rparr> (newPack ''a'')) = None
   \<and> fst (slashCommand (\<lambda>n. [n])
          \<lparr>cfg_id = ''x'', cfg_name = ''ping'', cfg_options = None,
           cfg_handle = (\<lambda>c. Returns (Num 2))\<rparr> (newPack ''b'')) = None
   \<and> map_of (cache_interactions (cache (refresh
        \<lparr>root_pack = Pack ''tessen'' newEmitter []
           [(''a'', snd (slashCommand (\<lambda>n. [n])
               \<lparr>cfg_id = ''x'', cfg_name = ''ping'', cfg_options = None,
                cfg_handle = (\<lambda>c. Returns (Num 1))\<rparr>
               (newPack ''a''))),
            (''b'', snd (slashCommand (\<lambda>n. [n])
               \<lparr>cfg_id = ''x'', cfg_name = ''ping'', cfg_options = None,
                cfg_handle = (\<lambda>c. Returns (Num 2))\<rparr>
               (newPack ''b'')))] [] [],
         config_defaults_language = None, cache = emptyCache, locales_content = []\<rparr>))) ''x''
       = Some \<lparr>path = [''tessen''],
               data = \<lparr>interactionId = ''x'', itype = Some ChatInput, name = Some ''ping'',
                       nameCombinations = Some [''ping''], options = None,
                       handle = (\<lambda>c. Returns (Num 2))\<rparr>\<rparr>
   \<and> handlersInvoked (handleInteraction stringToNumber (\<lambda>d. d) (\<lambda>b p. Undefined) Undefined Undefined
        (refresh
          \<lparr>root_pack = Pack ''tessen'' newEmitter []
             [(''a'', snd (slashCommand (\<lambda>n. [n])
                 \<lparr>cfg_id = ''x'', cfg_name = ''ping'', cfg_options = None,
                  cfg_handle = (\<lambda>c. Returns (Num 1))\<rparr>
                 (newPack ''a''))),
              (''b'', snd (slashCommand (\<lambda>n. [n])
                 \<lparr>cfg_id = ''x'', cfg_name = ''ping'', cfg_options = None,
                  cfg_handle = (\<lambda>c. Returns (Num 2))\<rparr>
                 (newPack ''b'')))] [] [],
           config_defaults_language = None, cache = emptyCache, locales_content = []\<rparr>)
        (IsChatInputCommand \<lparr>commandName = ''ping'', subcommandGroup = None, subcommand = None\<rparr>))
       = [CommandHandle ''x''
            \<lparr>interactionId = ''x'', itype = Some ChatInput, name = Some ''ping'',
             nameCombinations = Some [''ping''], options = None,
             handle = (\<lambda>c. Returns (Num 2))\<rparr>]
   \<and> handlersInvoked (handleInteraction stringToNumber (\<lambda>d. d) (\<lambda>b p. Undefined) Undefined Undefined
        (refresh
          \<lparr>root_pack = Pack ''tessen'' newEmitter []
             [(''a'', snd (button
                 \<lparr>component_id = ''ok'', component_handle = (\<lambda>c. Returns (Num 1))\<rparr>
                 (newPack ''a''))),
              (''b'', snd (button
                 \<lparr>component_id = ''ok'', component_handle = (\<lambda>c. Returns (Num 2))\<rparr>
                 (newPack ''b'')))] [] [],
           config_defaults_language = None, cache = emptyCache, locales_content = []\<rparr>)
        (IsButton (codeUnits ''ok'' @ CUSTOM_DATA_SPLITTER # codeUnits ''7'')))
       = [CommandHandle ''ok''
            \<lparr>interactionId = ''ok'', itype = Some Button, name = None,
             nameCombinations = None, options = None, handle = (\<lambda>c. Returns (Num 2))\<rparr>]"
proof -
  let ?cfgA = "\<lparr>cfg_id = ''x'', cfg_name = ''ping'', cfg_options = None,
                cfg_handle = (\<lambda>c::jsvalue. Returns (Num 1))\<rparr>"
  let ?cfgB = "\<lparr>cfg_id = ''x'', cfg_name = ''ping'', cfg_options = None,
                cfg_handle = (\<lambda>c::jsvalue. Returns (Num 2))\<rparr>"
  let ?iA = "\<lparr>interactionId = ''x'', itype = Some ChatInput, name = Some ''ping'',
             nameCombinations = Some [''ping''], options = None,
             handle = (\<lambda>c::jsvalue. Returns (Num 1))\<rparr>"
  let ?iB = "\<lparr>interactionId = ''x'', itype = Some ChatInput, name = Some ''ping'',
             nameCombinations = Some [''ping''], options = None,
             handle = (\<lambda>c::jsvalue. Returns (Num 2))\<rparr>"
  let ?gen = "\<lambda>n::string. [n]"
  have a: "slashCommand ?gen ?cfgA (newPack ''a'') = (None, Pack ''a'' newEmitter [] [] [(''x'', ?iA)] [])"
    by (simp add: slashCommand_def isSlashCommandValid_def storeInteraction_def setInteractions_def
        newPack_def emit_def getListenerEntries_def newEmitter_def noEmission_def
        removeOnceListeners_def Let_def)
  have b: "slashCommand ?gen ?cfgB (newPack ''b'') = (None, Pack ''b'' newEmitter [] [] [(''x'', ?iB)] [])"
    by (simp add: slashCommand_def isSlashCommandValid_def storeInteraction_def setInteractions_def
        newPack_def emit_def getListenerEntries_def newEmitter_def noEmission_def
        removeOnceListeners_def Let_def)
  let ?t = "\<lparr>root_pack = Pack ''tessen'' newEmitter []
           [(''a'', snd (slashCommand ?gen ?cfgA (newPack ''a''))),
            (''b'', snd (slashCommand ?gen ?cfgB (newPack ''b'')))] [] [],
         config_defaults_language = None, cache = emptyCache, locales_content = []\<rparr>"
  let ?x = "\<lparr>commandName = ''ping'', subcommandGroup = None, subcommand = None\<rparr>"
  let ?run = "handleInteraction stringToNumber (\<lambda>d. d) (\<lambda>b p. Undefined) Undefined Undefined
      (refresh ?t) (IsChatInputCommand ?x)"
  have ci: "cache_interactions (cache (refresh ?t)) = [(''x'', \<lparr>path = [''tessen''], data = ?iB\<rparr>)]"
    by (simp add: refresh_cache_interactions setAll_def a b)
  have run: "handlersInvoked ?run = [CommandHandle ''x'' ?iB]"
    by (simp add: handleInteraction_def handleChatInputCommand_def ci fullCommandName_def
        matchesChatInput_def awaitCall_def Let_def)
  have h: "CommandHandle ''x'' ?iB \<in> set (handlersInvoked ?run)
      \<and> registrationOf (CommandHandle ''x'' ?iB) = Some (''x'', ?iB)"
    unfolding run by simp
  from refresh_cache_last_visited_wins
    [of ?t "''x''" "CommandHandle ''x'' ?iB" stringToNumber "\<lambda>d. d" "\<lambda>b p. Undefined"
        Undefined Undefined "IsChatInputCommand ?x" "''x''" ?iB] h
  have e: "map_of (cache_interactions (cache (refresh ?t))) ''x''
       = map_of (rev (interactionEntries (root_pack ?t) [])) ''x''"
    and s: "\<exists>cd. map_of (rev (interactionEntries (root_pack ?t) [])) ''x'' = Some cd \<and> data cd = ?iB"
    by blast+
  from e have m: "map_of (cache_interactions (cache (refresh ?t))) ''x''
       = Some \<lparr>path = [''tessen''], data = ?iB\<rparr>"
    by (simp add: a b)
  let ?bA = "\<lparr>interactionId = ''ok'', itype = Some Button, name = None,
             nameCombinations = None, options = None, handle = (\<lambda>c::jsvalue. Returns (Num 1))\<rparr>"
  let ?bB = "\<lparr>interactionId = ''ok'', itype = Some Button, name = None,
             nameCombinations = None, options = None, handle = (\<lambda>c::jsvalue. Returns (Num 2))\<rparr>"
  have ba: "button \<lparr>component_id = ''ok'', component_handle = (\<lambda>c::jsvalue. Returns (Num 1))\<rparr>
      (newPack ''a'') = (None, Pack ''a'' newEmitter [] [] [(''ok'', ?bA)] [])"
    by (simp add: button_def registerComponent_def storeInteraction_def setInteractions_def
        newPack_def emit_def getListenerEntries_def newEmitter_def noEmission_def
        removeOnceListeners_def Let_def)
  have bb: "button \<lparr>component_id = ''ok'', component_handle = (\<lambda>c::jsvalue. Returns (Num 2))\<rparr>
      (newPack ''b'') = (None, Pack ''b'' newEmitter [] [] [(''ok'', ?bB)] [])"
    by (simp add: button_def registerComponent_def storeInteraction_def setInteractions_def
        newPack_def emit_def getListenerEntries_def newEmitter_def noEmission_def
        removeOnceListeners_def Let_def)
  let ?t2 = "\<lparr>root_pack = Pack ''tessen'' newEmitter []
             [(''a'', snd (button
                 \<lparr>component_id = ''ok'', component_handle = (\<lambda>c::jsvalue. Returns (Num 1))\<rparr>
                 (newPack ''a''))),
              (''b'', snd (button
                 \<lparr>component_id = ''ok'', component_handle = (\<lambda>c::jsvalue. Returns (Num 2))\<rparr>
                 (newPack ''b'')))] [] [],
           config_defaults_language = None, cache = emptyCache, locales_content = []\<rparr>"
  have ci2: "cache_interactions (cache (refresh ?t2)) = [(''ok'', \<lparr>path = [''tessen''], data = ?bB\<rparr>)]"
    by (simp add: refresh_cache_interactions setAll_def ba bb)
  have parse: "parseCustomData stringToNumber
      (codeUnits ''ok'' @ CUSTOM_DATA_SPLITTER # codeUnits ''7'') (Some (\<lambda>d. d))
      = (codeUnits ''ok'', [CString (codeUnits ''7'')])"
    by (simp add: parseCustomData_def codeUnits_def CUSTOM_DATA_SPLITTER_def decodePart_def
        CUSTOM_DATA_NUMBER_INDICATOR_def Let_def)
  have run2: "handlersInvoked (handleInteraction stringToNumber (\<lambda>d. d) (\<lambda>b p. Undefined)
      Undefined Undefined (refresh ?t2)
      (IsButton (codeUnits ''ok'' @ CUSTOM_DATA_SPLITTER # codeUnits ''7'')))
      = [CommandHandle ''ok'' ?bB]"
    by (simp add: handleInteraction_def handleButtonInteraction_def handleComponentInteraction_def
        parse ci2 matchesComponent_def callHandle_invoked)
  from a b m run run2 show ?thesis by simp
qed

section \<open>Dispatch of an unmatched slash command\<close>

lemma findCommand_None:
  "\<forall>entry\<in>set cached. \<not> matchesChatInput full (data (snd entry)) \<Longrightarrow>
     findCommand full cached = None"
  by (induction cached) auto

lemma inspectorEmit_no_handler:
  "chatInputHandler inspector ident = None \<Longrightarrow> inspectorEmit inspector ident ctx = (Undefined, [])"
  by (simp add: inspectorEmit_def)

lemma scanInspectors_no_handler:
  "\<forall>entry\<in>set cached. chatInputHandler (data (snd entry)) full = None \<Longrightarrow>
     scanInspectors full ctx cached = []"
  by (induction cached) (auto simp: inspectorEmit_no_handler)

text \<open>
  C8 (as amended). When the full command name of an inbound slash command matches no
  cached command, dispatch throws no error; when in addition no cached inspector has a
  handler for that name, dispatch calls no handler at all.
\<close>

theorem unmatched_slash_command_is_noop:
  assumes "\<forall>entry\<in>set (cache_interactions (cache t)).
             \<not> matchesChatInput (fullCommandName interaction) (data (snd entry))"
  shows "thrown (handleChatInputCommand t interaction ctx) = None
       \<and> ((\<forall>entry\<in>set (cache_inspectors (cache t)).
              chatInputHandler (data (snd entry)) (fullCommandName interaction) = None) \<longrightarrow>
            handleChatInputCommand t interaction ctx = \<lparr>handlersInvoked = [], thrown = None\<rparr>)"
  using findCommand_None [OF assms]
    scanInspectors_no_handler
      [of "cache_inspectors (cache t)" "fullCommandName interaction" ctx]
  by (auto simp: handleChatInputCommand_def Let_def)

theorem unmatched_slash_command_is_noop_witness:
  "cache_interactions (cache (refresh
        \<lparr>root_pack = Pack ''tessen'' newEmitter [] []
           [(''greet'', \<lparr>interactionId = ''greet'', itype = Some ChatInput, name = Some ''hello'',
                         nameCombinations = Some [''hello''], options = None, handle = (\<lambda>c. Returns Undefined)\<rparr>)]
           [(''insp'', \<lparr>inspectorId = ''insp'', chatInputCombinationsMap = [(''stats'', ''stats'')],
                        chatInputHandlers = [(''stats'', (\<lambda>c. Returns Undefined))], idHandlers = (\<lambda>ty. [])\<rparr>)],
         config_defaults_language = None, cache = emptyCache, locales_content = []\<rparr>))
       = [(''greet'', \<lparr>path = [], data = \<lparr>interactionId = ''greet'', itype = Some ChatInput,
            name = Some ''hello'', nameCombinations = Some [''hello''],
            options = None, handle = (\<lambda>c. Returns Undefined)\<rparr>\<rparr>)]
   \<and> \<not> matchesChatInput
          (fullCommandName \<lparr>commandName = ''ping'', subcommandGroup = None, subcommand = None\<rparr>)
          \<lparr>interactionId = ''greet'', itype = Some ChatInput, name = Some ''hello'',
           nameCombinations = Some [''hello''], options = None, handle = (\<lambda>c. Returns Undefined)\<rparr>
   \<and> cache_inspectors (cache (refresh
        \<lparr>root_pack = Pack ''tessen'' newEmitter [] []
           [(''greet'', \<lparr>interactionId = ''greet'', itype = Some ChatInput, name = Some ''hello'',
                         nameCombinations = Some [''hello''], options = None, handle = (\<lambda>c. Returns Undefined)\<rparr>)]
           [(''insp'', \<lparr>inspectorId = ''insp'', chatInputCombinationsMap = [(''stats'', ''stats'')],
                        chatInputHandlers = [(''stats'', (\<lambda>c. Returns Undefined))], idHandlers = (\<lambda>ty. [])\<rparr>)],
         config_defaults_language = None, cache = emptyCache, locales_content = []\<rparr>))
       = [(''insp'', \<lparr>path = [], data = \<lparr>inspectorId = ''insp'',
            chatInputCombinationsMap = [(''stats'', ''stats'')],
            chatInputHandlers = [(''stats'', (\<lambda>c. Returns Undefined))], idHandlers = (\<lambda>ty. [])\<rparr>\<rparr>)]
   \<and> chatInputHandler
        \<lparr>inspectorId = ''insp'', chatInputCombinationsMap = [(''stats'', ''stats'')],
         chatInputHandlers = [(''stats'', (\<lambda>c. Returns Undefined))], idHandlers = (\<lambda>ty. [])\<rparr>
        (fullCommandName \<lparr>commandName = ''ping'', subcommandGroup = None, subcommand = None\<rparr>)
        = None
   \<and> handleChatInputCommand (refresh
        \<lparr>root_pack = Pack ''tessen'' newEmitter [] []
           [(''greet'', \<lparr>interactionId = ''greet'', itype = Some ChatInput, name = Some ''hello'',
                         nameCombinations = Some [''hello''], options = None, handle = (\<lambda>c. Returns Undefined)\<rparr>)]
           [(''insp'', \<lparr>inspectorId = ''insp'', chatInputCombinationsMap = [(''stats'', ''stats'')],
                        chatInputHandlers = [(''stats'', (\<lambda>c. Returns Undefined))], idHandlers = (\<lambda>ty. [])\<rparr>)],
         config_defaults_language = None, cache = emptyCache, locales_content = []\<rparr>)
        \<lparr>commandName = ''ping'', subcommandGroup = None, subcommand = None\<rparr> Undefined
       = \<lparr>handlersInvoked = [], thrown = None\<rparr>"
proof -
  let ?t = "refresh
        \<lparr>root_pack = Pack ''tessen'' newEmitter [] []
           [(''greet'', \<lparr>interactionId = ''greet'', itype = Some ChatInput, name = Some ''hello'',
                         nameCombinations = Some [''hello''], options = None, handle = (\<lambda>c::jsvalue. Returns Undefined)\<rparr>)]
           [(''insp'', \<lparr>inspectorId = ''insp'', chatInputCombinationsMap = [(''stats'', ''stats'')],
                        chatInputHandlers = [(''stats'', (\<lambda>c::jsvalue. Returns Undefined))], idHandlers = (\<lambda>ty. [])\<rparr>)],
         config_defaults_language = None, cache = emptyCache, locales_content = []\<rparr>"
  let ?x = "\<lparr>commandName = ''ping'', subcommandGroup = None, subcommand = None\<rparr>"
  have ci: "cache_interactions (cache ?t)
      = [(''greet'', \<lparr>path = [], data = \<lparr>interactionId = ''greet'', itype = Some ChatInput,
            name = Some ''hello'', nameCombinations = Some [''hello''],
            options = None, handle = (\<lambda>c::jsvalue. Returns Undefined)\<rparr>\<rparr>)]"
    by (simp add: refresh_def Let_def cacheAll_def emptyCache_def)
  have cn: "cache_inspectors (cache ?t)
      = [(''insp'', \<lparr>path = [], data = \<lparr>inspectorId = ''insp'',
            chatInputCombinationsMap = [(''stats'', ''stats'')],
            chatInputHandlers = [(''stats'', (\<lambda>c::jsvalue. Returns Undefined))], idHandlers = (\<lambda>ty. [])\<rparr>\<rparr>)]"
    by (simp add: refresh_def Let_def cacheAll_def emptyCache_def)
  have h1: "\<forall>entry\<in>set (cache_interactions (cache ?t)).
      \<not> matchesChatInput (fullCommandName ?x) (data (snd entry))"
    unfolding ci by (simp add: matchesChatInput_def fullCommandName_def)
  have h2: "\<forall>entry\<in>set (cache_inspectors (cache ?t)).
      chatInputHandler (data (snd entry)) (fullCommandName ?x) = None"
    unfolding cn by (simp add: chatInputHandler_def fullCommandName_def)
  have n1: "\<not> matchesChatInput (fullCommandName ?x)
      \<lparr>interactionId = ''greet'', itype = Some ChatInput, name = Some ''hello'',
       nameCombinations = Some [''hello''], options = None, handle = (\<lambda>c::jsvalue. Returns Undefined)\<rparr>"
    by (simp add: matchesChatInput_def fullCommandName_def)
  have n2: "chatInputHandler
        \<lparr>inspectorId = ''insp'', chatInputCombinationsMap = [(''stats'', ''stats'')],
         chatInputHandlers = [(''stats'', (\<lambda>c::jsvalue. Returns Undefined))], idHandlers = (\<lambda>ty. [])\<rparr>
        (fullCommandName ?x) = None"
    by (simp add: chatInputHandler_def fullCommandName_def)
  from unmatched_slash_command_is_noop [OF h1, of Undefined] h2
  have "handleChatInputCommand ?t ?x Undefined = \<lparr>handlersInvoked = [], thrown = None\<rparr>"
    by blast
  with ci cn n1 n2 show ?thesis by blast
qed

text \<open>
  C8 as stated fails: an inspector whose handler for the name returns nothing (the
  declared return type of a handler is \<open>void\<close>) resolves \<open>emit\<close> to \<open>undefined\<close>, so no
  inspector returns a defined result, and yet its handler was called.
\<close>

theorem unmatched_slash_command_counterexample:
  "findCommand
      (fullCommandName \<lparr>commandName = ''ping'', subcommandGroup = None, subcommand = None\<rparr>)
      (cache_interactions (cache (refresh
        \<lparr>root_pack = Pack ''tessen'' newEmitter [] [] []
           [(''insp'', \<lparr>inspectorId = ''insp'', chatInputCombinationsMap = [(''ping'', ''ping'')],
                        chatInputHandlers = [(''ping'', (\<lambda>c. Returns Undefined))], idHandlers = (\<lambda>ty. [])\<rparr>)],
         config_defaults_language = None, cache = emptyCache, locales_content = []\<rparr>))) = None
   \<and> fst (inspectorEmit
        \<lparr>inspectorId = ''insp'', chatInputCombinationsMap = [(''ping'', ''ping'')],
         chatInputHandlers = [(''ping'', (\<lambda>c. Returns Undefined))], idHandlers = (\<lambda>ty. [])\<rparr>
        (fullCommandName \<lparr>commandName = ''ping'', subcommandGroup = None, subcommand = None\<rparr>)
        Undefined) = Undefined
   \<and> handleChatInputCommand (refresh
        \<lparr>root_pack = Pack ''tessen'' newEmitter [] [] []
           [(''insp'', \<lparr>inspectorId = ''insp'', chatInputCombinationsMap = [(''ping'', ''ping'')],
                        chatInputHandlers = [(''ping'', (\<lambda>c. Returns Undefined))], idHandlers = (\<lambda>ty. [])\<rparr>)],
         config_defaults_language = None, cache = emptyCache, locales_content = []\<rparr>)
        \<lparr>commandName = ''ping'', subcommandGroup = None, subcommand = None\<rparr> Undefined
       = \<lparr>handlersInvoked = [InspectorHandle ''insp'' ''ping''], thrown = None\<rparr>"
  by (simp add: refresh_def Let_def cacheAll_def emptyCache_def handleChatInputCommand_def
      fullCommandName_def inspectorEmit_def chatInputHandler_def awaitCall_def)

end
